theory Spec2Isabelle
  imports Complex_Main "HOL-Library.Word"
begin

section \<open>Data model (the type definitions of drive-sentry/types)\<close>

text \<open>
  JavaScript numbers are modelled as real numbers (no rounding, no NaN); a \<open>Date\<close> is the
  number of milliseconds its \<open>getTime()\<close> returns. A field of type \<open>number | null\<close> is an
  option. Every \<open>throw new Error(msg)\<close> of the source is the value \<open>Inl (Error msg)\<close>.

  A JavaScript string is a sequence of UTF-16 code units. The strings of a Bluetooth
  device, whose characters the matcher reads, are lists of 16-bit words; \<open>js\<close> turns an
  ASCII literal into one. Session ids and error messages are only compared and are kept
  as \<open>string\<close>.
\<close>

datatype error = Error string

type_synonym jsstring = "16 word list"

definition js :: "string \<Rightarrow> jsstring" where
  "js s = map (\<lambda>c. of_nat (of_char c)) s"

record LocationData =
  latitude :: real
  longitude :: real
  altitude :: "real option"
  accuracy :: "real option"
  speed :: "real option"
  heading :: "real option"
  timestamp :: real

datatype TrackingMode = ModeMonitoring | ModeDriving | ModePaused

datatype SessionTrigger =
    TriggerBluetooth jsstring jsstring
  | TriggerGps "LocationData"
  | TriggerManual

datatype SessionStatus = Active | Paused | Completed

record DriveSession =
  session_id :: string
  startTime :: real
  endTime :: "real option"
  status :: SessionStatus
  startTrigger :: SessionTrigger
  endTrigger :: "SessionTrigger option"
  totalDistance :: real
  totalDuration :: real
  averageSpeed :: real
  maxSpeed :: real
  waypointCount :: nat

record Waypoint = LocationData +
  waypoint_id :: nat
  sessionId :: string

section \<open>SessionManager (class SessionManager, session/SessionManager.ts)\<close>

text \<open>
  Session objects are mutable and shared: \<open>startSession\<close> returns the very object it
  stores in \<open>currentSession\<close>, and \<open>endSession\<close> returns a fresh copy. The model keeps
  every session object ever created in a store, \<open>sessions\<close>, addressed by position;
  \<open>currentSession\<close> is a reference into it (\<open>None\<close> for \<open>null\<close>).
\<close>

record SessionManager =
  sessions :: "DriveSession list"
  currentSession :: "nat option"
  waypoints :: "Waypoint list"

definition initialManager :: SessionManager where
  "initialManager = \<lparr>sessions = [], currentSession = None, waypoints = []\<rparr>"

definition isSessionActive :: "SessionManager \<Rightarrow> bool" where
  "isSessionActive m =
     (case currentSession m of
        None \<Rightarrow> False
      | Some a \<Rightarrow> status (sessions m ! a) \<noteq> Completed)"

text \<open>
  \<open>startSession\<close>: the parameters \<open>newId\<close> and \<open>now\<close> are what \<open>generateSessionId()\<close>
  and \<open>new Date()\<close> return at the call. The result is the reference to the new object.
\<close>

definition startSession ::
  "SessionTrigger \<Rightarrow> string \<Rightarrow> real \<Rightarrow> SessionManager \<Rightarrow> error + (nat \<times> SessionManager)" where
  "startSession trigger newId now m =
     (if (case currentSession m of
            None \<Rightarrow> False
          | Some a \<Rightarrow> status (sessions m ! a) \<noteq> Completed)
      then Inl (Error ''Cannot start new session while one is active'')
      else
        let session = \<lparr>session_id = newId, startTime = now, endTime = None,
                       status = Active, startTrigger = trigger, endTrigger = None,
                       totalDistance = 0, totalDuration = 0, averageSpeed = 0,
                       maxSpeed = 0, waypointCount = 0\<rparr>;
            a = length (sessions m)
        in Inr (a, m\<lparr>sessions := sessions m @ [session],
                      currentSession := Some a,
                      waypoints := []\<rparr>))"

definition pauseSession :: "SessionManager \<Rightarrow> error + SessionManager" where
  "pauseSession m =
     (case currentSession m of
        None \<Rightarrow> Inl (Error ''No active session to pause'')
      | Some a \<Rightarrow>
          if status (sessions m ! a) \<noteq> Active
          then Inl (Error ''No active session to pause'')
          else Inr (m\<lparr>sessions := (sessions m)[a := (sessions m ! a)\<lparr>status := Paused\<rparr>]\<rparr>))"

definition resumeSession :: "SessionManager \<Rightarrow> error + SessionManager" where
  "resumeSession m =
     (case currentSession m of
        None \<Rightarrow> Inl (Error ''No paused session to resume'')
      | Some a \<Rightarrow>
          if status (sessions m ! a) \<noteq> Paused
          then Inl (Error ''No paused session to resume'')
          else Inr (m\<lparr>sessions := (sessions m)[a := (sessions m ! a)\<lparr>status := Active\<rparr>]\<rparr>))"

text \<open>
  \<open>addWaypoint\<close>. The test \<open>location.speed && location.speed > maxSpeed\<close> is false for
  a speed that is \<open>null\<close> or \<open>0\<close>.
\<close>

definition addWaypoint :: "LocationData \<Rightarrow> SessionManager \<Rightarrow> SessionManager" where
  "addWaypoint location m =
     (case currentSession m of
        None \<Rightarrow> m
      | Some a \<Rightarrow>
          if status (sessions m ! a) \<noteq> Active then m
          else
            let cur = sessions m ! a;
                waypoint = LocationData.extend location
                  \<lparr>waypoint_id = length (waypoints m) + 1, sessionId = session_id cur\<rparr>;
                cur' = (case speed location of
                          None \<Rightarrow> cur
                        | Some v \<Rightarrow> if v \<noteq> 0 \<and> v > maxSpeed cur
                                    then cur\<lparr>maxSpeed := v\<rparr> else cur)
            in m\<lparr>sessions := (sessions m)[a := cur'],
                  waypoints := waypoints m @ [waypoint]\<rparr>)"

text \<open>
  \<open>Math.atan2\<close> on the reals, and the great-circle distance of the source
  (\<open>R = 6371000\<close> metres).
\<close>

definition atan2 :: "real \<Rightarrow> real \<Rightarrow> real" where
  "atan2 y x =
     (if x > 0 then arctan (y / x)
      else if x < 0 then (if y \<ge> 0 then arctan (y / x) + pi else arctan (y / x) - pi)
      else if y > 0 then pi / 2
      else if y < 0 then - pi / 2
      else 0)"

definition haversineDistance :: "'a LocationData_scheme \<Rightarrow> 'b LocationData_scheme \<Rightarrow> real" where
  "haversineDistance coord1 coord2 =
     (let R = 6371000;
          lat1 = (latitude coord1 * pi) / 180;
          lat2 = (latitude coord2 * pi) / 180;
          deltaLat = ((latitude coord2 - latitude coord1) * pi) / 180;
          deltaLon = ((longitude coord2 - longitude coord1) * pi) / 180;
          a = sin (deltaLat / 2) * sin (deltaLat / 2) +
              cos lat1 * cos lat2 * sin (deltaLon / 2) * sin (deltaLon / 2);
          c = 2 * atan2 (sqrt a) (sqrt (1 - a))
      in R * c)"

text \<open>
  The loop \<open>for (let i = 1; i < waypoints.length; i++) totalDistance += ...\<close> of
  \<open>calculateStats\<close>, with the loop variable and the accumulator as arguments.
\<close>

function distanceLoop :: "Waypoint list \<Rightarrow> nat \<Rightarrow> real \<Rightarrow> real" where
  "distanceLoop ws i totalDist =
     (if i < length ws
      then distanceLoop ws (i + 1) (totalDist + haversineDistance (ws ! (i - 1)) (ws ! i))
      else totalDist)"
  by pat_completeness auto
termination
  by (relation "measure (\<lambda>(ws, i, totalDist). length ws - i)") auto

declare distanceLoop.simps [simp del]

text \<open>
  \<open>calculateStats\<close> works on the current session object \<open>cur\<close> (already completed by
  \<open>endSession\<close>) and the waypoints. \<open>endTime && startTime\<close> is true exactly when
  \<open>endTime\<close> is not \<open>null\<close>, both being \<open>Date\<close> objects. The quotient is formed only
  under the guard \<open>duration > 0\<close>, as in the source.
\<close>

definition calculateStats :: "Waypoint list \<Rightarrow> DriveSession \<Rightarrow> DriveSession" where
  "calculateStats ws cur =
     (if length ws < 2 then cur
      else
        let duration = (case endTime cur of
                          Some e \<Rightarrow> (e - startTime cur) / 1000
                        | None \<Rightarrow> 0);
            cur1 = cur\<lparr>totalDuration := duration\<rparr>;
            totalDist = distanceLoop ws 1 0;
            cur2 = cur1\<lparr>totalDistance := totalDist\<rparr>
        in if duration > 0 then cur2\<lparr>averageSpeed := totalDist / duration\<rparr> else cur2)"

text \<open>
  \<open>endSession\<close>: the current object is completed in place, then copied; the copy is a
  new object of the store and its reference is the result.
\<close>

definition endSession ::
  "SessionTrigger \<Rightarrow> real \<Rightarrow> SessionManager \<Rightarrow> error + (nat \<times> SessionManager)" where
  "endSession trigger now m =
     (case currentSession m of
        None \<Rightarrow> Inl (Error ''No session to end'')
      | Some a \<Rightarrow>
          let cur = (sessions m ! a)\<lparr>endTime := Some now, endTrigger := Some trigger,
                                     status := Completed,
                                     waypointCount := length (waypoints m)\<rparr>;
              cur' = calculateStats (waypoints m) cur;
              store = (sessions m)[a := cur'];
              c = length store
          in Inr (c, m\<lparr>sessions := store @ [cur'],
                        currentSession := None,
                        waypoints := []\<rparr>))"

subsection \<open>Sequences of SessionManager operations\<close>

text \<open>
  A call that throws leaves the manager as it was: every \<open>throw\<close> of the class
  precedes the first assignment of its method.
\<close>

datatype operation =
    StartSession SessionTrigger string real
  | PauseSession
  | ResumeSession
  | AddWaypoint LocationData
  | EndSession SessionTrigger real

fun perform :: "SessionManager \<Rightarrow> operation \<Rightarrow> SessionManager" where
  "perform m (StartSession trigger newId now) =
     (case startSession trigger newId now m of Inl e \<Rightarrow> m | Inr (a, m') \<Rightarrow> m')"
| "perform m PauseSession = (case pauseSession m of Inl e \<Rightarrow> m | Inr m' \<Rightarrow> m')"
| "perform m ResumeSession = (case resumeSession m of Inl e \<Rightarrow> m | Inr m' \<Rightarrow> m')"
| "perform m (AddWaypoint location) = addWaypoint location m"
| "perform m (EndSession trigger now) =
     (case endSession trigger now m of Inl e \<Rightarrow> m | Inr (c, m') \<Rightarrow> m')"

definition run :: "operation list \<Rightarrow> SessionManager" where
  "run ops = foldl perform initialManager ops"

definition openSessions :: "SessionManager \<Rightarrow> nat list" where
  "openSessions m =
     filter (\<lambda>a. status (sessions m ! a) \<noteq> Completed) [0..<length (sessions m)]"

definition managerInv :: "SessionManager \<Rightarrow> bool" where
  "managerInv m \<longleftrightarrow>
     (case currentSession m of
        None \<Rightarrow> True
      | Some a \<Rightarrow> a < length (sessions m) \<and> status (sessions m ! a) \<noteq> Completed) \<and>
     (\<forall>i < length (sessions m).
        currentSession m \<noteq> Some i \<longrightarrow> status (sessions m ! i) = Completed)"

fun isEndSession :: "operation \<Rightarrow> bool" where
  "isEndSession (EndSession trigger now) = True"
| "isEndSession _ = False"

subsection \<open>Vocabulary of the statements about sessions\<close>

text \<open>
  \<open>acceptedWaypoints m calls\<close> counts the \<open>addWaypoint\<close> calls of \<open>calls\<close> made while
  the current session's status is \<open>active\<close>.
\<close>

fun isAddWaypoint :: "operation \<Rightarrow> bool" where
  "isAddWaypoint (AddWaypoint location) = True"
| "isAddWaypoint _ = False"

definition statusIsActive :: "SessionManager \<Rightarrow> bool" where
  "statusIsActive m =
     (case currentSession m of
        None \<Rightarrow> False
      | Some a \<Rightarrow> status (sessions m ! a) = Active)"

fun acceptedWaypoints :: "SessionManager \<Rightarrow> operation list \<Rightarrow> nat" where
  "acceptedWaypoints m [] = 0"
| "acceptedWaypoints m (op # ops) =
     (if isAddWaypoint op \<and> statusIsActive m then 1 else 0) +
     acceptedWaypoints (perform m op) ops"

definition currentStatsZero :: "SessionManager \<Rightarrow> bool" where
  "currentStatsZero m =
     (case currentSession m of
        None \<Rightarrow> True
      | Some a \<Rightarrow> totalDistance (sessions m ! a) = 0 \<and>
                  totalDuration (sessions m ! a) = 0 \<and>
                  averageSpeed (sessions m ! a) = 0)"

definition waypointsNumbered :: "SessionManager \<Rightarrow> bool" where
  "waypointsNumbered m = (map waypoint_id (waypoints m) = [1 ..< Suc (length (waypoints m))])"

text \<open>
  The distance of the specification, stated without the code: the haversine of an angle
  is \<open>hav\<close>; by the law of haversines the central angle \<open>\<theta>\<close> between two points of a
  sphere satisfies \<open>hav \<theta> = hav \<Delta>lat + cos lat1 * cos lat2 * hav \<Delta>lon\<close>, with \<open>\<theta>\<close> between
  0 and \<open>pi\<close>; the great-circle distance is the mean Earth radius, 6371 km, times that
  angle. \<open>consecutiveDistance\<close> sums it over the consecutive pairs of a waypoint list,
  in the order of the list.
\<close>

definition hav :: "real \<Rightarrow> real" where
  "hav \<theta> = (sin (\<theta> / 2))\<^sup>2"

definition radians :: "real \<Rightarrow> real" where
  "radians deg = deg * pi / 180"

definition meanEarthRadius :: real where
  "meanEarthRadius = 6371000"

definition centralAngle :: "'a LocationData_scheme \<Rightarrow> 'b LocationData_scheme \<Rightarrow> real" where
  "centralAngle p q =
     2 * arcsin (sqrt (hav (radians (latitude q - latitude p)) +
                       cos (radians (latitude p)) * cos (radians (latitude q)) *
                       hav (radians (longitude q - longitude p))))"

definition greatCircleDistance :: "'a LocationData_scheme \<Rightarrow> 'b LocationData_scheme \<Rightarrow> real" where
  "greatCircleDistance p q = meanEarthRadius * centralAngle p q"

definition consecutiveDistance :: "Waypoint list \<Rightarrow> real" where
  "consecutiveDistance ws =
     (\<Sum>i = 1 ..< length ws. greatCircleDistance (ws ! (i - 1)) (ws ! i))"

definition samplePoint :: "real \<Rightarrow> real \<Rightarrow> real \<Rightarrow> real \<Rightarrow> LocationData" where
  "samplePoint lat lon v t = \<lparr>latitude = lat, longitude = lon, altitude = None, accuracy = None,
                 speed = Some v, heading = None, timestamp = t\<rparr>"

section \<open>DrivingDetector (class DrivingDetector, second part of listeners/index.ts)\<close>

datatype DrivingDetectorState = Idle | Detecting | Driving | Stationary

record DrivingConditions =
  minSpeed :: real
  minDuration :: real
  minDistance :: real
  maxStationaryTime :: real
  sessionEndTimeout :: real

record DrivingDetectorResult =
  result_state :: DrivingDetectorState
  confidence :: real
  currentSpeed :: real
  result_averageSpeed :: real
  distanceTraveled :: real
  drivingDuration :: real
  stationaryDuration :: real

record DrivingDetector =
  conditions :: DrivingConditions
  state :: DrivingDetectorState
  locationHistory :: "LocationData list"
  drivingStartTime :: "real option"
  stationaryStartTime :: "real option"

text \<open>The constructor: the defaults, overridden by the fields the caller gives.\<close>

definition defaultConditions :: DrivingConditions where
  "defaultConditions = \<lparr>minSpeed = 5, minDuration = 60, minDistance = 200,
                          maxStationaryTime = 120, sessionEndTimeout = 300\<rparr>"

definition newDetector :: "DrivingConditions \<Rightarrow> DrivingDetector" where
  "newDetector c = \<lparr>conditions = c, state = Idle, locationHistory = [],
                     drivingStartTime = None, stationaryStartTime = None\<rparr>"

definition reset :: "DrivingDetector \<Rightarrow> DrivingDetector" where
  "reset d = d\<lparr>state := Idle, locationHistory := [],
               drivingStartTime := None, stationaryStartTime := None\<rparr>"

text \<open>
  JavaScript's coercions of a \<open>number | null\<close>: \<open>!x\<close> holds for \<open>null\<close> and for \<open>0\<close>;
  \<open>x ?? 0\<close> replaces \<open>null\<close> only; in arithmetic \<open>null\<close> counts as \<open>0\<close>.
\<close>

definition falsy :: "real option \<Rightarrow> bool" where
  "falsy x = (case x of None \<Rightarrow> True | Some v \<Rightarrow> v = 0)"

definition orZero :: "real option \<Rightarrow> real" where
  "orZero x = (case x of None \<Rightarrow> 0 | Some v \<Rightarrow> v)"

text \<open>
  \<open>getResult\<close>. Where the source divides by a \<open>minDuration\<close> of 0 it yields \<open>NaN\<close> or
  \<open>Infinity\<close>; here the quotient is 0. No statement below reads \<open>confidence\<close>.
\<close>

definition getResult :: "LocationData \<Rightarrow> DrivingDetector \<Rightarrow> DrivingDetectorResult" where
  "getResult latestLocation d =
     (let drivingDur = (if \<not> falsy (drivingStartTime d)
                        then (timestamp latestLocation - orZero (drivingStartTime d)) / 1000
                        else 0);
          stationaryDur = (if \<not> falsy (stationaryStartTime d)
                           then (timestamp latestLocation - orZero (stationaryStartTime d)) / 1000
                           else 0);
          speeds = filter (\<lambda>s. s > 0) (map (\<lambda>l. orZero (speed l)) (locationHistory d));
          avgSpeed = (if length speeds > 0
                      then foldl (\<lambda>a b. a + b) 0 speeds / real (length speeds)
                      else 0);
          conf = (if state d = Driving
                  then min 1 (drivingDur / (minDuration (conditions d) * 2))
                  else if state d = Detecting
                  then drivingDur / minDuration (conditions d)
                  else 0)
      in \<lparr>result_state = state d, confidence = conf,
          currentSpeed = orZero (speed latestLocation),
          result_averageSpeed = avgSpeed, distanceTraveled = 0,
          drivingDuration = drivingDur, stationaryDuration = stationaryDur\<rparr>)"

text \<open>
  \<open>processLocation\<close>; \<open>dateNow\<close> is what \<open>Date.now()\<close> returns at the call. The
  moving branch never clears \<open>drivingStartTime\<close> and the other branch never touches it:
  only \<open>reset\<close> sets it back to \<open>null\<close>.
\<close>

definition processLocation ::
  "real \<Rightarrow> LocationData \<Rightarrow> DrivingDetector \<Rightarrow> DrivingDetectorResult \<times> DrivingDetector" where
  "processLocation dateNow location d =
     (let fiveMinutesAgo = dateNow - 300000;
          d0 = d\<lparr>locationHistory :=
                   filter (\<lambda>l. timestamp l > fiveMinutesAgo) (locationHistory d @ [location])\<rparr>;
          curSpeed = orZero (speed location);
          isMoving = (curSpeed \<ge> minSpeed (conditions d0));
          d' =
            (if isMoving then
               let d1 = d0\<lparr>stationaryStartTime := None\<rparr>;
                   d2 = (if falsy (drivingStartTime d1)
                         then d1\<lparr>drivingStartTime := Some (timestamp location),
                                 state := Detecting\<rparr>
                         else d1);
                   drivingDur = (timestamp location - orZero (drivingStartTime d2)) / 1000
               in if drivingDur \<ge> minDuration (conditions d2)
                  then d2\<lparr>state := Driving\<rparr> else d2
             else
               let d2 = (if falsy (stationaryStartTime d0)
                         then d0\<lparr>stationaryStartTime := Some (timestamp location)\<rparr>
                         else d0);
                   stationaryDur =
                     (timestamp location - orZero (stationaryStartTime d2)) / 1000
               in if stationaryDur \<ge> maxStationaryTime (conditions d2)
                  then d2\<lparr>state := Stationary\<rparr> else d2)
      in (getResult location d', d'))"

subsection \<open>Streams of samples\<close>

text \<open>
  A stream is a list of calls of \<open>processLocation\<close>, each with the clock reading at the
  call and the sample; \<open>processAll\<close> gives the detector after all of them.
\<close>

definition processAll :: "DrivingDetector \<Rightarrow> (real \<times> LocationData) list \<Rightarrow> DrivingDetector" where
  "processAll d calls = foldl (\<lambda>d (dateNow, location). snd (processLocation dateNow location d)) d calls"

definition moving :: "DrivingConditions \<Rightarrow> real \<times> LocationData \<Rightarrow> bool" where
  "moving c call = (orZero (speed (snd call)) \<ge> minSpeed c)"

definition call :: "real \<Rightarrow> real \<Rightarrow> real \<times> LocationData" where
  "call t v = (t, samplePoint 0 0 v t)"

section \<open>DriveSentry, the orchestrator (class DriveSentry, second part of detectors/index.ts)\<close>

record BluetoothDevice =
  device_id :: jsstring
  device_name :: jsstring
  device_isCarDevice :: bool
  signalStrength :: "real option"
  lastSeen :: real

datatype DriveSentryStatus =
  StatusIdle | StatusMonitoring | StatusDetecting | StatusDriving | StatusPaused | StatusError

text \<open>An event that carries a session carries the reference to the session object.\<close>

datatype DriveSentryEvent =
    BLUETOOTH_CONNECTED BluetoothDevice
  | BLUETOOTH_DISCONNECTED BluetoothDevice
  | LOCATION_UPDATE LocationData
  | DRIVING_DETECTED
  | DRIVING_PAUSED
  | DRIVING_RESUMED
  | SESSION_STARTED nat
  | SESSION_ENDED nat
  | ERROR error

text \<open>
  The orchestrator with the state of its collaborators: \<open>bleManager\<close>, \<open>isScanning\<close> and
  \<open>connectedDevices\<close> belong to BluetoothListener, \<open>isTracking\<close> and \<open>currentMode\<close> to
  GPSListener. A subscribed handler is a number; \<open>eventHandlers\<close> lists the handlers in
  the order of the \<open>Set\<close>. A handler only observes: \<open>delivered\<close> records each call of a
  handler with the event it got, and a handler that throws is caught by \<open>emit\<close> and
  changes nothing. \<open>unhandledRejections\<close> collects the errors of rejected promises
  that nothing awaits.
\<close>

record DriveSentry =
  sentry_status :: DriveSentryStatus
  eventHandlers :: "nat list"
  isInitialized :: bool
  drivingDetector :: DrivingDetector
  sessionManager :: SessionManager
  bleManager :: bool
  isScanning :: bool
  connectedDevices :: "BluetoothDevice list"
  isTracking :: bool
  currentMode :: TrackingMode
  delivered :: "(nat \<times> DriveSentryEvent) list"
  unhandledRejections :: "error list"

definition newSentry :: DriveSentry where
  "newSentry = \<lparr>sentry_status = StatusIdle, eventHandlers = [], isInitialized = False,
                 drivingDetector = newDetector defaultConditions,
                 sessionManager = initialManager,
                 bleManager = False, isScanning = False, connectedDevices = [],
                 isTracking = False, currentMode = ModeMonitoring,
                 delivered = [], unhandledRejections = []\<rparr>"

definition subscribe :: "nat \<Rightarrow> DriveSentry \<Rightarrow> DriveSentry" where
  "subscribe handler s =
     (if handler \<in> set (eventHandlers s) then s
      else s\<lparr>eventHandlers := eventHandlers s @ [handler]\<rparr>)"

definition unsubscribe :: "nat \<Rightarrow> DriveSentry \<Rightarrow> DriveSentry" where
  "unsubscribe handler s = s\<lparr>eventHandlers := removeAll handler (eventHandlers s)\<rparr>"

definition emit :: "DriveSentryEvent \<Rightarrow> DriveSentry \<Rightarrow> DriveSentry" where
  "emit event s = s\<lparr>delivered := delivered s @ map (\<lambda>handler. (handler, event)) (eventHandlers s)\<rparr>"

definition isCarConnected :: "DriveSentry \<Rightarrow> bool" where
  "isCarConnected s = list_ex device_isCarDevice (connectedDevices s)"

definition setTrackingMode :: "TrackingMode \<Rightarrow> DriveSentry \<Rightarrow> DriveSentry" where
  "setTrackingMode mode s = s\<lparr>currentMode := mode\<rparr>"

text \<open>
  A method that can throw returns the error, if any, with the state it leaves. The calls
  into the platform libraries are parameters: \<open>bleNew\<close>, \<open>bleScan\<close>, \<open>bleStop\<close>,
  \<open>locStart\<close> and \<open>locStop\<close> are the errors thrown by \<open>new BleManager()\<close>,
  \<open>startDeviceScan\<close>, \<open>stopDeviceScan\<close>, \<open>startLocationUpdatesAsync\<close> and
  \<open>stopLocationUpdatesAsync\<close> (\<open>None\<close> when the call returns). The code after an
  \<open>await\<close> is run before the next call into the orchestrator.
\<close>

definition initialize :: "error option \<Rightarrow> DriveSentry \<Rightarrow> error option \<times> DriveSentry" where
  "initialize bleNew s =
     (if isInitialized s then (None, s)
      else if bleManager s then (None, s\<lparr>isInitialized := True\<rparr>)
      else (case bleNew of
              Some e \<Rightarrow> (Some e, emit (ERROR e) s)
            | None \<Rightarrow> (None, s\<lparr>bleManager := True, isInitialized := True\<rparr>)))"

definition start ::
  "error option \<Rightarrow> error option \<Rightarrow> DriveSentry \<Rightarrow> error option \<times> DriveSentry" where
  "start bleScan locStart s =
     (if \<not> isInitialized s
      then (Some (Error ''DriveSentry not initialized. Call initialize() first.''), s)
      else if sentry_status s \<noteq> StatusIdle then (None, s)
      else
        let s1 = s\<lparr>isScanning := True\<rparr>
        in case (if bleManager s1 then bleScan else None) of
             Some e \<Rightarrow> (Some e, emit (ERROR e) (s1\<lparr>sentry_status := StatusError\<rparr>))
           | None \<Rightarrow>
               (case locStart of
                  Some e \<Rightarrow> (Some e, emit (ERROR e) (s1\<lparr>sentry_status := StatusError\<rparr>))
                | None \<Rightarrow> (None, s1\<lparr>isTracking := True, sentry_status := StatusMonitoring\<rparr>)))"

text \<open>
  \<open>stop\<close>; \<open>newDate\<close> is the \<open>new Date()\<close> of \<open>endSession\<close>. The source emits nothing
  after \<open>endSession\<close> here.
\<close>

definition stop ::
  "real \<Rightarrow> error option \<Rightarrow> error option \<Rightarrow> DriveSentry \<Rightarrow> error option \<times> DriveSentry" where
  "stop newDate bleStop locStop s =
     (case (if isSessionActive (sessionManager s)
            then (case endSession TriggerManual newDate (sessionManager s) of
                    Inl e \<Rightarrow> Inl e
                  | Inr (c, m') \<Rightarrow> Inr (s\<lparr>sessionManager := m'\<rparr>))
            else Inr s) of
        Inl e \<Rightarrow> (Some e, emit (ERROR e) s)
      | Inr s1 \<Rightarrow>
          (case (if bleManager s1 then bleStop else None) of
             Some e \<Rightarrow> (Some e, emit (ERROR e) s1)
           | None \<Rightarrow>
               let s2 = s1\<lparr>isScanning := False\<rparr>;
                   s3 = (case locStop of None \<Rightarrow> s2\<lparr>isTracking := False\<rparr> | Some e \<Rightarrow> s2)
               in (None, s3\<lparr>drivingDetector := reset (drivingDetector s3),
                               sentry_status := StatusIdle\<rparr>)))"

text \<open>
  \<open>handleDrivingDetected\<close>; \<open>newId\<close> and \<open>newDate\<close> are the session id and the
  \<open>new Date()\<close> of \<open>startSession\<close>. The error is the rejection of the promise this
  \<open>async\<close> method returns.
\<close>

definition handleDrivingDetected ::
  "LocationData \<Rightarrow> string \<Rightarrow> real \<Rightarrow> DriveSentry \<Rightarrow> error option \<times> DriveSentry" where
  "handleDrivingDetected location newId newDate s =
     (let s1 = emit DRIVING_DETECTED (s\<lparr>sentry_status := StatusDriving\<rparr>);
          trigger = (if isCarConnected s1 then TriggerBluetooth (js ''unknown'') (js ''Car'')
                     else TriggerGps location)
      in case startSession trigger newId newDate (sessionManager s1) of
           Inl e \<Rightarrow> (Some e, s1)
         | Inr (a, m') \<Rightarrow>
             (None, setTrackingMode ModeDriving
                      (emit (SESSION_STARTED a) (s1\<lparr>sessionManager := m'\<rparr>))))"

definition handleDrivingPaused :: "DriveSentry \<Rightarrow> error option \<times> DriveSentry" where
  "handleDrivingPaused s =
     (let s1 = emit DRIVING_PAUSED (s\<lparr>sentry_status := StatusPaused\<rparr>)
      in case pauseSession (sessionManager s1) of
           Inl e \<Rightarrow> (Some e, s1)
         | Inr m' \<Rightarrow> (None, setTrackingMode ModePaused (s1\<lparr>sessionManager := m'\<rparr>)))"

text \<open>
  \<open>handleLocationUpdate\<close>; \<open>dateNow\<close> is the \<open>Date.now()\<close> of \<open>processLocation\<close>. The
  promise of \<open>handleDrivingDetected\<close> is dropped, so its rejection is unhandled; an error
  of \<open>handleDrivingPaused\<close> is thrown to the caller.
\<close>

definition handleLocationUpdate ::
  "real \<Rightarrow> string \<Rightarrow> real \<Rightarrow> LocationData \<Rightarrow> DriveSentry \<Rightarrow> error option \<times> DriveSentry" where
  "handleLocationUpdate dateNow newId newDate location s =
     (let s1 = emit (LOCATION_UPDATE location) s;
          (result, detector) = processLocation dateNow location (drivingDetector s1);
          s2 = s1\<lparr>drivingDetector := detector\<rparr>
      in case result_state result of
           Driving \<Rightarrow>
             if sentry_status s2 \<noteq> StatusDriving
             then (case handleDrivingDetected location newId newDate s2 of
                     (Some e, s3) \<Rightarrow>
                       (None, s3\<lparr>unhandledRejections := unhandledRejections s3 @ [e]\<rparr>)
                   | (None, s3) \<Rightarrow> (None, s3))
             else if isSessionActive (sessionManager s2)
             then (None, s2\<lparr>sessionManager := addWaypoint location (sessionManager s2)\<rparr>)
             else (None, s2)
         | Stationary \<Rightarrow>
             if sentry_status s2 = StatusDriving then handleDrivingPaused s2 else (None, s2)
         | Idle \<Rightarrow> (None, s2)
         | Detecting \<Rightarrow> (None, s2))"

definition handleCarConnected :: "BluetoothDevice \<Rightarrow> DriveSentry \<Rightarrow> DriveSentry" where
  "handleCarConnected device s =
     (let s1 = emit (BLUETOOTH_CONNECTED device) s
      in if sentry_status s1 = StatusMonitoring \<or> sentry_status s1 = StatusIdle
         then setTrackingMode ModeDriving (s1\<lparr>sentry_status := StatusDetecting\<rparr>)
         else s1)"

text \<open>\<open>handleCarDisconnected\<close>; \<open>newDate\<close> is the \<open>new Date()\<close> of \<open>endSession\<close>.\<close>

definition handleCarDisconnected ::
  "BluetoothDevice \<Rightarrow> real \<Rightarrow> DriveSentry \<Rightarrow> error option \<times> DriveSentry" where
  "handleCarDisconnected device newDate s =
     (let s1 = emit (BLUETOOTH_DISCONNECTED device) s
      in if sentry_status s1 = StatusDriving \<and> isSessionActive (sessionManager s1)
         then (case endSession (TriggerBluetooth (device_id device) (device_name device))
                     newDate (sessionManager s1) of
                 Inl e \<Rightarrow> (Some e, s1)
               | Inr (c, m') \<Rightarrow>
                   (None, setTrackingMode ModeMonitoring
                            ((emit (SESSION_ENDED c) (s1\<lparr>sessionManager := m'\<rparr>))
                               \<lparr>sentry_status := StatusMonitoring\<rparr>)))
         else (None, s1))"

subsection \<open>Runs of the orchestrator\<close>

text \<open>
  \<open>feed\<close> hands a list of samples to \<open>handleLocationUpdate\<close>, each with the clock
  reading and the session id of that call; the clock of \<open>processLocation\<close> and of
  \<open>startSession\<close> read the same.
\<close>

definition feed :: "DriveSentry \<Rightarrow> (real \<times> string \<times> LocationData) list \<Rightarrow> DriveSentry" where
  "feed s calls =
     foldl (\<lambda>s (t, newId, location). snd (handleLocationUpdate t newId t location s)) s calls"

definition locationUpdate :: "real \<Rightarrow> real \<Rightarrow> real \<times> string \<times> LocationData" where
  "locationUpdate t v = (t, ''session'', samplePoint 0 0 v t)"

definition monitoringSentry :: DriveSentry where
  "monitoringSentry =
     snd (start None None (snd (initialize None (subscribe 2 (subscribe 1 newSentry)))))"

fun isSessionEnded :: "DriveSentryEvent \<Rightarrow> bool" where
  "isSessionEnded (SESSION_ENDED c) = True"
| "isSessionEnded _ = False"

definition carDevice :: BluetoothDevice where
  "carDevice = \<lparr>device_id = js ''AA:BB'', device_name = js ''My Car'',
                 device_isCarDevice = True,
                 signalStrength = None, lastSeen = 0\<rparr>"

text \<open>
  Two states reached from \<open>monitoringSentry\<close>: after samples at 6 m/s at 1 s and 61 s
  (driving, a session active), and after two further samples at 0 m/s at 62 s and 182 s
  (paused, the session paused).
\<close>

definition drivingSentry :: DriveSentry where
  "drivingSentry = feed monitoringSentry [locationUpdate 1000 6, locationUpdate 61000 6]"

definition pausedSentry :: DriveSentry where
  "pausedSentry = feed drivingSentry [locationUpdate 62000 0, locationUpdate 182000 0]"

section \<open>CarBluetoothMatcher (class CarBluetoothMatcher, detectors/CarBluetoothMatcher.ts)\<close>

datatype CarDeviceType = TagAuto | TagManual

record CarDevice =
  car_id :: jsstring
  car_name :: jsstring
  car_type :: CarDeviceType
  lastConnected :: "real option"
  createdAt :: real

text \<open>The matcher is its map \<open>manuallyTaggedDevices\<close>, from device ids to records.\<close>

type_synonym CarBluetoothMatcher = "jsstring \<rightharpoonup> CarDevice"

text \<open>
  A pattern \<open>/word/i\<close> tested on a name: the pattern matches at some position, unit by
  unit, two units matching when they are equal after canonicalisation. Without the \<open>u\<close>
  flag ECMAScript canonicalises a unit to its upper case, but never a unit from 128 on to
  one below 128. The patterns hold ASCII letters and a space only, and for a comparison
  with those this is the same as mapping a-z to A-Z and leaving every other unit alone.
\<close>

definition canonicalize :: "16 word \<Rightarrow> 16 word" where
  "canonicalize c = (if 0x61 \<le> c \<and> c \<le> 0x7A then c - 0x20 else c)"

fun matchesAt :: "jsstring \<Rightarrow> jsstring \<Rightarrow> bool" where
  "matchesAt [] input = True"
| "matchesAt (p # ps) [] = False"
| "matchesAt (p # ps) (c # cs) = (canonicalize p = canonicalize c \<and> matchesAt ps cs)"

fun regexTest :: "jsstring \<Rightarrow> jsstring \<Rightarrow> bool" where
  "regexTest pattern [] = matchesAt pattern []"
| "regexTest pattern (c # cs) = (matchesAt pattern (c # cs) \<or> regexTest pattern cs)"

definition patterns :: "jsstring list" where
  "patterns = map js
     [''car'', ''auto'', ''sync'', ''carplay'', ''android auto'', ''handsfree'', ''vehicle'',
      ''honda'', ''toyota'', ''ford'', ''bmw'', ''mercedes'', ''audi'', ''volkswagen'',
      ''chevrolet'', ''nissan'', ''hyundai'', ''kia'', ''mazda'', ''subaru'', ''lexus'',
      ''jeep'', ''tesla'']"

definition matchesCarPattern :: "jsstring \<Rightarrow> bool" where
  "matchesCarPattern deviceName = list_ex (\<lambda>pattern. regexTest pattern deviceName) patterns"

definition isCarDevice :: "BluetoothDevice \<Rightarrow> CarBluetoothMatcher \<Rightarrow> bool" where
  "isCarDevice device tags =
     (if tags (device_id device) \<noteq> None then True
      else matchesCarPattern (device_name device))"

text \<open>
  \<open>tagAsCarDevice\<close>; \<open>connectedDate\<close> and \<open>createdDate\<close> are its two \<open>new Date()\<close>.
  \<open>untagCarDevice\<close> returns what \<open>Map.delete\<close> returns.
\<close>

definition tagAsCarDevice ::
  "BluetoothDevice \<Rightarrow> real \<Rightarrow> real \<Rightarrow> CarBluetoothMatcher \<Rightarrow> CarDevice \<times> CarBluetoothMatcher" where
  "tagAsCarDevice device connectedDate createdDate tags =
     (let carDev = \<lparr>car_id = device_id device, car_name = device_name device,
                      car_type = TagManual, lastConnected = Some connectedDate,
                      createdAt = createdDate\<rparr>
      in (carDev, tags(device_id device \<mapsto> carDev)))"

definition untagCarDevice :: "jsstring \<Rightarrow> CarBluetoothMatcher \<Rightarrow> bool \<times> CarBluetoothMatcher" where
  "untagCarDevice deviceId tags = (tags deviceId \<noteq> None, tags(deviceId := None))"

subsection \<open>Lower case\<close>

text \<open>
  \<open>toLowerCase\<close> stands for \<open>String.prototype.toLowerCase\<close>, which the statement about
  case names. It reads the name code point by code point, a leading surrogate followed by
  a trailing one being one code point, and replaces each by its lower case in the Unicode
  character database. Three parts of the database are written out: an ASCII unit keeps
  its value but for A-Z, which become a-z (\<open>asciiLower\<close>); U+212A (KELVIN SIGN) becomes k;
  U+0130 becomes i followed by U+0307. The rest of the database is the parameter
  \<open>table\<close>: \<open>table before rest\<close> is the lower case of the code point at the head of
  \<open>rest\<close>, with the units \<open>before\<close> it for the context (the lower case of a capital sigma
  depends on its neighbours). \<open>nonAsciiTable\<close> is the one fact about the database that
  the proofs use: the lower case of every other code point is not empty and holds no
  ASCII unit; it asks nothing of the entries for U+212A and U+0130, which are never read. \<open>latin1Table\<close> follows the database on Latin-1 and keeps every other code
  point; it serves for the concrete instances.
\<close>

definition asciiLower :: "16 word \<Rightarrow> 16 word" where
  "asciiLower c = (if 0x41 \<le> c \<and> c \<le> 0x5A then c + 0x20 else c)"

type_synonym caseTable = "jsstring \<Rightarrow> jsstring \<Rightarrow> jsstring"

definition surrogatePair :: "16 word \<Rightarrow> 16 word \<Rightarrow> bool" where
  "surrogatePair c d \<longleftrightarrow> 0xD800 \<le> c \<and> c \<le> 0xDBFF \<and> 0xDC00 \<le> d \<and> d \<le> 0xDFFF"

definition lowerCodePoint :: "caseTable \<Rightarrow> jsstring \<Rightarrow> jsstring \<Rightarrow> 16 word \<Rightarrow> jsstring" where
  "lowerCodePoint table before rest c =
     (if c < 0x80 then [asciiLower c]
      else if c = 0x212A then [0x6B]
      else if c = 0x130 then [0x69, 0x307]
      else table before rest)"

fun lowerFrom :: "caseTable \<Rightarrow> jsstring \<Rightarrow> jsstring \<Rightarrow> jsstring" where
  "lowerFrom table before [] = []"
| "lowerFrom table before [c] = lowerCodePoint table before [c] c"
| "lowerFrom table before (c # d # ds) =
     (if surrogatePair c d
      then table before (c # d # ds) @ lowerFrom table (before @ [c, d]) ds
      else lowerCodePoint table before (c # d # ds) c @
           lowerFrom table (before @ [c]) (d # ds))"

definition toLowerCase :: "caseTable \<Rightarrow> jsstring \<Rightarrow> jsstring" where
  "toLowerCase table name = lowerFrom table [] name"

definition nonAsciiTable :: "caseTable \<Rightarrow> bool" where
  "nonAsciiTable table \<longleftrightarrow>
     (\<forall>before c cs. 0x80 \<le> c \<and> c \<noteq> 0x212A \<and> c \<noteq> 0x130 \<longrightarrow>
        table before (c # cs) \<noteq> [] \<and> (\<forall>u \<in> set (table before (c # cs)). 0x80 \<le> u))"

definition latin1Table :: caseTable where
  "latin1Table before rest =
     (case rest of
        [] \<Rightarrow> []
      | c # cs \<Rightarrow>
          if 0xC0 \<le> c \<and> c \<le> 0xDE \<and> c \<noteq> 0xD7 then [c + 0x20]
          else (case cs of
                  [] \<Rightarrow> [c]
                | d # ds \<Rightarrow> if surrogatePair c d then [c, d] else [c]))"

definition asciiPattern :: "jsstring \<Rightarrow> bool" where
  "asciiPattern pattern \<longleftrightarrow> (\<forall>q \<in> set pattern. q < 0x80)"

definition plainName :: "jsstring \<Rightarrow> bool" where
  "plainName name \<longleftrightarrow> (\<forall>c \<in> set name. c \<noteq> 0x212A \<and> c \<noteq> 0x130)"

section \<open>Properties of SessionManager\<close>

lemma managerInv_initial: "managerInv initialManager"
  by (simp add: managerInv_def initialManager_def)

lemma managerInv_startSession:
  assumes "managerInv m" and "startSession trigger newId now m = Inr (a, m')"
  shows "managerInv m'"
  using assms
  by (auto simp: managerInv_def startSession_def Let_def nth_append
           split: option.splits if_splits)

lemma managerInv_pauseSession:
  assumes "managerInv m" and "pauseSession m = Inr m'"
  shows "managerInv m'"
  using assms
  by (auto simp: managerInv_def pauseSession_def nth_list_update
           split: option.splits if_splits)

lemma managerInv_resumeSession:
  assumes "managerInv m" and "resumeSession m = Inr m'"
  shows "managerInv m'"
  using assms
  by (auto simp: managerInv_def resumeSession_def nth_list_update
           split: option.splits if_splits)

lemma managerInv_addWaypoint:
  assumes "managerInv m"
  shows "managerInv (addWaypoint location m)"
  using assms
  by (auto simp: managerInv_def addWaypoint_def Let_def nth_list_update
           split: option.splits if_splits)

lemma status_calculateStats [simp]: "status (calculateStats ws cur) = status cur"
  by (simp add: calculateStats_def Let_def)

lemma managerInv_endSession:
  assumes "managerInv m" and "endSession trigger now m = Inr (c, m')"
  shows "managerInv m'"
  using assms
  by (auto simp: managerInv_def endSession_def Let_def nth_list_update nth_append
           split: option.splits if_splits)

lemma managerInv_perform: "managerInv m \<Longrightarrow> managerInv (perform m op)"
  by (cases op)
     (auto split: sum.splits
           intro: managerInv_startSession managerInv_pauseSession managerInv_resumeSession
                  managerInv_addWaypoint managerInv_endSession)

lemma managerInv_foldl: "managerInv m \<Longrightarrow> managerInv (foldl perform m ops)"
  by (induction ops arbitrary: m) (simp_all add: managerInv_perform)

lemma managerInv_run: "managerInv (run ops)"
  by (simp add: run_def managerInv_foldl managerInv_initial)

lemma filter_eq_upt: "filter (\<lambda>i. i = a) [0..<n] = (if a < n then [a] else [])"
  by (induction n) auto

lemma openSessions_inv:
  assumes "managerInv m"
  shows "openSessions m = (case currentSession m of None \<Rightarrow> [] | Some a \<Rightarrow> [a])"
proof (cases "currentSession m")
  case None
  with assms show ?thesis
    by (auto simp: openSessions_def managerInv_def filter_empty_conv)
next
  case (Some a)
  with assms have "filter (\<lambda>i. status (sessions m ! i) \<noteq> Completed) [0..<length (sessions m)]
      = filter (\<lambda>i. i = a) [0..<length (sessions m)]"
    by (intro filter_cong) (auto simp: managerInv_def)
  with assms Some show ?thesis
    by (simp add: openSessions_def filter_eq_upt managerInv_def)
qed

lemma isSessionActive_open:
  "managerInv m \<Longrightarrow> isSessionActive m \<longleftrightarrow> openSessions m \<noteq> []"
  by (simp add: openSessions_inv isSessionActive_def managerInv_def split: option.splits)

lemma startSession_fails_iff:
  "startSession trigger newId now m = Inl (Error ''Cannot start new session while one is active'')
     \<longleftrightarrow> isSessionActive m"
  by (simp add: startSession_def isSessionActive_def Let_def split: option.splits)

lemma startSession_succeeds_iff:
  "(\<exists>a m'. startSession trigger newId now m = Inr (a, m')) \<longleftrightarrow> \<not> isSessionActive m"
  by (simp add: startSession_def isSessionActive_def Let_def split: option.splits)

lemma isSessionActive_startSession:
  "startSession trigger newId now m = Inr (a, m') \<Longrightarrow> isSessionActive m'"
  by (auto simp: startSession_def isSessionActive_def Let_def split: option.splits if_splits)

lemma isSessionActive_perform:
  assumes "managerInv m" and "isSessionActive m" and "\<not> isEndSession op"
  shows "isSessionActive (perform m op)"
proof (cases op)
  case (StartSession trigger newId now)
  with assms show ?thesis
    by (auto split: sum.splits dest: isSessionActive_startSession)
next
  case PauseSession
  with assms show ?thesis
    by (auto simp: pauseSession_def isSessionActive_def managerInv_def
             split: sum.splits option.splits if_splits)
next
  case ResumeSession
  with assms show ?thesis
    by (auto simp: resumeSession_def isSessionActive_def managerInv_def
             split: sum.splits option.splits if_splits)
next
  case (AddWaypoint location)
  with assms show ?thesis
    by (auto simp: addWaypoint_def isSessionActive_def managerInv_def Let_def
             split: option.splits if_splits)
next
  case (EndSession trigger now)
  with assms show ?thesis by simp
qed

lemma isSessionActive_foldl:
  assumes "managerInv m" and "isSessionActive m" and "\<forall>op \<in> set ops. \<not> isEndSession op"
  shows "isSessionActive (foldl perform m ops)"
  using assms
  by (induction ops arbitrary: m) (simp_all add: isSessionActive_perform managerInv_perform)

text \<open>
  C1. After any sequence of SessionManager operations at most one session object is not
  completed; \<open>startSession\<close> throws exactly when such a session exists and succeeds
  otherwise; and once a \<open>startSession\<close> has succeeded, every further \<open>startSession\<close>
  throws as long as no \<open>endSession\<close> is called.
\<close>

theorem startSession_single_open_session:
  "length (openSessions (run ops)) \<le> 1 \<and>
   (isSessionActive (run ops) \<longleftrightarrow> openSessions (run ops) \<noteq> []) \<and>
   (startSession trigger newId now (run ops) =
       Inl (Error ''Cannot start new session while one is active'')
     \<longleftrightarrow> openSessions (run ops) \<noteq> []) \<and>
   ((\<exists>a m'. startSession trigger newId now (run ops) = Inr (a, m'))
     \<longleftrightarrow> openSessions (run ops) = []) \<and>
   (openSessions (run ops) = [] \<and> (\<forall>op \<in> set later. \<not> isEndSession op) \<longrightarrow>
      startSession trigger' newId' now' (run (ops @ StartSession trigger newId now # later)) =
        Inl (Error ''Cannot start new session while one is active''))"
proof -
  let ?m = "run ops"
  have inv: "managerInv ?m" by (rule managerInv_run)
  have one: "length (openSessions ?m) \<le> 1"
    by (simp add: openSessions_inv [OF inv] split: option.splits)
  have act: "isSessionActive ?m \<longleftrightarrow> openSessions ?m \<noteq> []"
    by (rule isSessionActive_open [OF inv])
  have fails: "startSession trigger newId now ?m =
       Inl (Error ''Cannot start new session while one is active'')
     \<longleftrightarrow> openSessions ?m \<noteq> []"
    using act by (simp only: startSession_fails_iff)
  have succeeds: "(\<exists>a m'. startSession trigger newId now ?m = Inr (a, m'))
     \<longleftrightarrow> openSessions ?m = []"
    using act by (simp only: startSession_succeeds_iff) simp
  have again: "startSession trigger' newId' now'
        (run (ops @ StartSession trigger newId now # later)) =
        Inl (Error ''Cannot start new session while one is active'')"
    if free: "openSessions ?m = []" and noend: "\<forall>op \<in> set later. \<not> isEndSession op"
  proof -
    from free succeeds obtain a m' where st: "startSession trigger newId now ?m = Inr (a, m')"
      by blast
    have inv': "managerInv m'" by (rule managerInv_startSession [OF inv st])
    have act': "isSessionActive m'" by (rule isSessionActive_startSession [OF st])
    have "run (ops @ StartSession trigger newId now # later) = foldl perform m' later"
      using st by (simp add: run_def)
    moreover have "isSessionActive (foldl perform m' later)"
      by (rule isSessionActive_foldl [OF inv' act' noend])
    ultimately show ?thesis by (simp only: startSession_fails_iff)
  qed
  from one act fails succeeds again show ?thesis by blast
qed

theorem startSession_single_open_session_witness:
  "openSessions (run []) = [] \<and>
   (\<exists>a m'. startSession TriggerManual ''s1'' 1 (run []) = Inr (a, m')) \<and>
   startSession TriggerManual ''s3'' 3
     (run ([] @ StartSession TriggerManual ''s1'' 1 #
             [PauseSession, StartSession TriggerManual ''s2'' 2])) =
     Inl (Error ''Cannot start new session while one is active'')"
proof -
  have free: "openSessions (run []) = []"
    by (simp add: run_def initialManager_def openSessions_def)
  have noend: "\<forall>op \<in> set [PauseSession, StartSession TriggerManual ''s2'' 2]. \<not> isEndSession op"
    by simp
  from free noend
    startSession_single_open_session [of "[]" TriggerManual "''s1''" 1
      "[PauseSession, StartSession TriggerManual ''s2'' 2]" TriggerManual "''s3''" 3]
  show ?thesis by blast
qed

lemma addWaypoint_inactive: "\<not> statusIsActive m \<Longrightarrow> addWaypoint location m = m"
  by (simp add: addWaypoint_def statusIsActive_def split: option.splits)

lemma addWaypoint_active:
  "statusIsActive m \<Longrightarrow>
   \<exists>w. waypoints (addWaypoint location m) = waypoints m @ [w] \<and>
       waypoint_id w = length (waypoints m) + 1 \<and>
       LocationData.truncate w = location"
  by (auto simp: addWaypoint_def statusIsActive_def Let_def LocationData.extend_def
                 LocationData.truncate_def
           split: option.splits)

lemma waypoints_perform:
  assumes "isSessionActive m" and "\<not> isEndSession op"
  shows "length (waypoints (perform m op)) =
         length (waypoints m) + (if isAddWaypoint op \<and> statusIsActive m then 1 else 0)"
proof (cases op)
  case (StartSession trigger newId now)
  with assms show ?thesis
    by (simp add: startSession_def isSessionActive_def split: option.splits)
next
  case PauseSession
  then show ?thesis
    by (auto simp: pauseSession_def split: option.splits)
next
  case ResumeSession
  then show ?thesis
    by (auto simp: resumeSession_def split: option.splits)
next
  case (AddWaypoint location)
  then show ?thesis
    using addWaypoint_active [of m location] addWaypoint_inactive [of m location]
    by (cases "statusIsActive m") auto
next
  case (EndSession trigger now)
  with assms show ?thesis by simp
qed

lemma waypoints_foldl:
  assumes "managerInv m" and "isSessionActive m" and "\<forall>op \<in> set calls. \<not> isEndSession op"
  shows "length (waypoints (foldl perform m calls)) =
         length (waypoints m) + acceptedWaypoints m calls"
  using assms
proof (induction calls arbitrary: m)
  case Nil
  then show ?case by simp
next
  case (Cons op calls)
  from Cons.prems have step: "managerInv (perform m op)" "isSessionActive (perform m op)"
    by (simp_all add: managerInv_perform isSessionActive_perform)
  from Cons.prems have rest: "\<forall>op \<in> set calls. \<not> isEndSession op" by simp
  have "length (waypoints (foldl perform (perform m op) calls)) =
        length (waypoints (perform m op)) + acceptedWaypoints (perform m op) calls"
    by (rule Cons.IH [OF step rest])
  moreover have "length (waypoints (perform m op)) =
        length (waypoints m) + (if isAddWaypoint op \<and> statusIsActive m then 1 else 0)"
    using Cons.prems by (intro waypoints_perform) simp_all
  ultimately show ?case by simp
qed

lemma waypointsNumbered_perform:
  assumes "waypointsNumbered m"
  shows "waypointsNumbered (perform m op)"
proof (cases op)
  case (StartSession trigger newId now)
  with assms show ?thesis
    by (auto simp: startSession_def waypointsNumbered_def Let_def split: option.splits)
next
  case PauseSession
  with assms show ?thesis
    by (auto simp: pauseSession_def waypointsNumbered_def split: option.splits)
next
  case ResumeSession
  with assms show ?thesis
    by (auto simp: resumeSession_def waypointsNumbered_def split: option.splits)
next
  case (AddWaypoint location)
  show ?thesis
  proof (cases "statusIsActive m")
    case True
    from addWaypoint_active [OF True, of location] obtain w where
      w: "waypoints (addWaypoint location m) = waypoints m @ [w]"
         "waypoint_id w = length (waypoints m) + 1" by blast
    with assms AddWaypoint show ?thesis
      by (simp add: waypointsNumbered_def)
  next
    case False
    with assms AddWaypoint show ?thesis by (simp add: addWaypoint_inactive)
  qed
next
  case (EndSession trigger now)
  with assms show ?thesis
    by (auto simp: endSession_def waypointsNumbered_def Let_def split: option.splits)
qed

lemma waypointsNumbered_foldl:
  "waypointsNumbered m \<Longrightarrow> waypointsNumbered (foldl perform m calls)"
  by (induction calls arbitrary: m) (simp_all add: waypointsNumbered_perform)

lemma waypointCount_calculateStats [simp]:
  "waypointCount (calculateStats ws cur) = waypointCount cur"
  by (simp add: calculateStats_def Let_def)

lemma session_id_calculateStats [simp]:
  "session_id (calculateStats ws cur) = session_id cur"
  by (simp add: calculateStats_def Let_def)

lemma endSession_result:
  assumes "currentSession m = Some a"
  shows "\<exists>c m'. endSession trigger now m = Inr (c, m') \<and>
           c = length (sessions m) \<and>
           sessions m' ! c =
             calculateStats (waypoints m)
               ((sessions m ! a)\<lparr>endTime := Some now, endTrigger := Some trigger,
                                 status := Completed,
                                 waypointCount := length (waypoints m)\<rparr>) \<and>
           currentSession m' = None \<and> waypoints m' = []"
  using assms by (simp add: endSession_def Let_def nth_append)

lemma current_perform:
  assumes "managerInv m" and "currentSession m = Some a" and "\<not> isEndSession op"
  shows "currentSession (perform m op) = Some a \<and>
         session_id (sessions (perform m op) ! a) = session_id (sessions m ! a)"
proof (cases op)
  case (StartSession trigger newId now)
  with assms show ?thesis
    by (simp add: startSession_def managerInv_def)
next
  case PauseSession
  with assms show ?thesis
    by (auto simp: pauseSession_def managerInv_def)
next
  case ResumeSession
  with assms show ?thesis
    by (auto simp: resumeSession_def managerInv_def)
next
  case (AddWaypoint location)
  with assms show ?thesis
    by (auto simp: addWaypoint_def managerInv_def Let_def split: option.splits)
next
  case (EndSession trigger now)
  with assms show ?thesis by simp
qed

lemma current_foldl:
  assumes "managerInv m" and "currentSession m = Some a"
    and "\<forall>op \<in> set calls. \<not> isEndSession op"
  shows "currentSession (foldl perform m calls) = Some a \<and>
         session_id (sessions (foldl perform m calls) ! a) = session_id (sessions m ! a)"
  using assms
proof (induction calls arbitrary: m)
  case Nil
  then show ?case by simp
next
  case (Cons op calls)
  from Cons.prems have one: "currentSession (perform m op) = Some a"
      "session_id (sessions (perform m op) ! a) = session_id (sessions m ! a)"
    using current_perform [of m a op] by simp_all
  from Cons.prems have "managerInv (perform m op)" by (simp add: managerInv_perform)
  from Cons.IH [OF this one(1)] Cons.prems one(2) show ?case by simp
qed

text \<open>
  C7. For a session started after any history and then driven by any calls other than
  \<open>endSession\<close>, \<open>endSession\<close> returns that session with \<open>waypointCount\<close> equal to
  the number of \<open>addWaypoint\<close> calls made while its status was \<open>active\<close>; the
  waypoints carry the ids 1, 2, ... in order; \<open>addWaypoint\<close> changes nothing unless the
  status is \<open>active\<close>, and an accepted waypoint gets the id (count before the call) + 1.
\<close>

theorem waypointCount_counts_accepted:
  assumes started: "startSession trigger newId now (run ops) = Inr (a, m0)"
    and noend: "\<forall>op \<in> set calls. \<not> isEndSession op"
  shows "(\<exists>c m'. endSession trigger' now' (foldl perform m0 calls) = Inr (c, m') \<and>
            session_id (sessions m' ! c) = newId \<and>
            waypointCount (sessions m' ! c) = acceptedWaypoints m0 calls) \<and>
         map waypoint_id (waypoints (foldl perform m0 calls)) =
            [1 ..< Suc (acceptedWaypoints m0 calls)] \<and>
         (\<forall>m location. \<not> statusIsActive m \<longrightarrow> addWaypoint location m = m) \<and>
         (\<forall>m location. statusIsActive m \<longrightarrow>
            (\<exists>w. waypoints (addWaypoint location m) = waypoints m @ [w] \<and>
                 waypoint_id w = length (waypoints m) + 1))"
proof -
  let ?m1 = "foldl perform m0 calls"
  have inv0: "managerInv m0"
    by (rule managerInv_startSession [OF managerInv_run started])
  have act0: "isSessionActive m0"
    by (rule isSessionActive_startSession [OF started])
  from started have new: "currentSession m0 = Some a" "waypoints m0 = []"
      "session_id (sessions m0 ! a) = newId"
    by (auto simp: startSession_def Let_def split: if_splits)
  have len: "length (waypoints ?m1) = acceptedWaypoints m0 calls"
    using waypoints_foldl [OF inv0 act0 noend] new(2) by simp
  have cur: "currentSession ?m1 = Some a" "session_id (sessions ?m1 ! a) = newId"
    using current_foldl [OF inv0 new(1) noend] new(3) by simp_all
  from endSession_result [OF cur(1), of trigger' now'] obtain c m' where
    ended: "endSession trigger' now' ?m1 = Inr (c, m')"
      "sessions m' ! c =
         calculateStats (waypoints ?m1)
           ((sessions ?m1 ! a)\<lparr>endTime := Some now', endTrigger := Some trigger',
                                 status := Completed,
                                 waypointCount := length (waypoints ?m1)\<rparr>)"
    by blast
  have first: "\<exists>c m'. endSession trigger' now' ?m1 = Inr (c, m') \<and>
            session_id (sessions m' ! c) = newId \<and>
            waypointCount (sessions m' ! c) = acceptedWaypoints m0 calls"
    using ended cur(2) len by simp
  have "waypointsNumbered m0" using new(2) by (simp add: waypointsNumbered_def)
  then have "waypointsNumbered ?m1" by (rule waypointsNumbered_foldl)
  then have ids: "map waypoint_id (waypoints ?m1) = [1 ..< Suc (acceptedWaypoints m0 calls)]"
    using len by (simp add: waypointsNumbered_def)
  from first ids addWaypoint_inactive addWaypoint_active show ?thesis by blast
qed

theorem waypointCount_counts_accepted_witness:
  "(\<exists>c m'. endSession TriggerManual 9
       (foldl perform
          (snd (projr (startSession TriggerManual ''s1'' 1 (run []))))
          [AddWaypoint (samplePoint 0 0 6 2), PauseSession, AddWaypoint (samplePoint 0 0 6 3), ResumeSession,
           AddWaypoint (samplePoint 0 0 7 4)]) = Inr (c, m') \<and>
       waypointCount (sessions m' ! c) = 2)"
proof -
  let ?calls = "[AddWaypoint (samplePoint 0 0 6 2), PauseSession, AddWaypoint (samplePoint 0 0 6 3),
                 ResumeSession, AddWaypoint (samplePoint 0 0 7 4)]"
  let ?m0 = "\<lparr>sessions = [\<lparr>session_id = ''s1'', startTime = 1, endTime = None,
                 status = Active, startTrigger = TriggerManual, endTrigger = None,
                 totalDistance = 0, totalDuration = 0, averageSpeed = 0,
                 maxSpeed = 0, waypointCount = 0\<rparr>],
               currentSession = Some 0, waypoints = []\<rparr>"
  have started: "startSession TriggerManual ''s1'' 1 (run []) = Inr (0, ?m0)"
    by (simp add: startSession_def run_def initialManager_def)
  have noend: "\<forall>op \<in> set ?calls. \<not> isEndSession op" by simp
  have count: "acceptedWaypoints ?m0 ?calls = 2"
    by (simp add: statusIsActive_def addWaypoint_def pauseSession_def resumeSession_def
                  samplePoint_def Let_def)
  from waypointCount_counts_accepted [OF started noend, of TriggerManual 9] count started
  show ?thesis by auto
qed

lemma distanceLoop_sum:
  "1 \<le> i \<Longrightarrow> distanceLoop ws i acc =
     acc + (\<Sum>k = i ..< length ws. haversineDistance (ws ! (k - 1)) (ws ! k))"
proof (induction ws i acc rule: distanceLoop.induct)
  case (1 ws i totalDist)
  show ?case
  proof (cases "i < length ws")
    case True
    have "distanceLoop ws i totalDist =
          distanceLoop ws (i + 1) (totalDist + haversineDistance (ws ! (i - 1)) (ws ! i))"
      using True by (subst distanceLoop.simps) simp
    also have "\<dots> = totalDist + haversineDistance (ws ! (i - 1)) (ws ! i) +
          (\<Sum>k = i + 1 ..< length ws. haversineDistance (ws ! (k - 1)) (ws ! k))"
      using "1.IH" [OF True] "1.prems" by simp
    also have "\<dots> = totalDist +
          (\<Sum>k = i ..< length ws. haversineDistance (ws ! (k - 1)) (ws ! k))"
      using True by (simp add: sum.atLeast_Suc_lessThan)
    finally show ?thesis .
  next
    case False
    then show ?thesis by (subst distanceLoop.simps) simp
  qed
qed

text \<open>
  The distance the code computes, with \<open>atan2\<close> of two square roots, is the great-circle
  distance above, for all coordinates: the argument of the square root lies between 0 and
  1. The central angle is also the angle whose cosine is the inner product of the two
  unit vectors, the usual definition of the great-circle distance.
\<close>

lemma hav_half: "hav \<theta> = (1 - cos \<theta>) / 2"
  using cos_double_sin [of "\<theta> / 2"] by (simp add: hav_def)

lemma hav_range: "0 \<le> hav \<theta>" "hav \<theta> \<le> 1"
proof -
  have "0 \<le> 1 + cos \<theta>"
    using cos_ge_minus_one [of \<theta>] by linarith
  then show "0 \<le> hav \<theta>" "hav \<theta> \<le> 1" unfolding hav_half by simp_all
qed

lemma haversine_sum:
  "hav (y - x) + cos x * cos y = (1 + cos (x + y)) / 2"
  by (simp add: hav_half cos_add cos_diff field_simps)

lemma haversine_argument_range:
  fixes x y l :: real
  defines "a \<equiv> hav (y - x) + cos x * cos y * hav l"
  shows "0 \<le> a" and "a \<le> 1"
proof -
  let ?K = "hav (y - x) + cos x * cos y"
  have "0 \<le> 1 + cos (x + y)"
    using cos_ge_minus_one [of "x + y"] by linarith
  then have K: "0 \<le> ?K" "?K \<le> 1"
    unfolding haversine_sum by simp_all
  have split: "a = (1 - hav l) * hav (y - x) + hav l * ?K"
    by (simp add: a_def algebra_simps)
  have "0 \<le> (1 - hav l) * hav (y - x)" "0 \<le> hav l * ?K"
    using hav_range K by simp_all
  then show "0 \<le> a" unfolding split by simp
  have "(1 - hav l) * hav (y - x) \<le> (1 - hav l) * 1"
    using hav_range [of l] hav_range [of "y - x"] by (intro mult_left_mono) simp_all
  moreover have "hav l * ?K \<le> hav l * 1"
    using hav_range [of l] K by (intro mult_left_mono) simp_all
  ultimately show "a \<le> 1" unfolding split by simp
qed

lemma atan2_sqrt_arcsin:
  assumes "0 \<le> a" and "a \<le> 1"
  shows "atan2 (sqrt a) (sqrt (1 - a)) = arcsin (sqrt a)"
proof (cases "a = 1")
  case True
  then show ?thesis by (simp add: atan2_def)
next
  case False
  with assms have lt: "a < 1" by simp
  then have pos: "0 < sqrt (1 - a)" by simp
  have "sqrt a < 1" using assms lt by (simp add: real_sqrt_lt_1_iff)
  moreover have "- 1 < sqrt a" using assms by (smt (verit) real_sqrt_ge_zero)
  ultimately have "arcsin (sqrt a) = arctan (sqrt a / sqrt (1 - (sqrt a)\<^sup>2))"
    by (rule arcsin_arctan [rotated])
  also have "(sqrt a)\<^sup>2 = a" using assms by simp
  finally show ?thesis using pos by (simp add: atan2_def)
qed

lemma haversineDistance_greatCircle:
  "haversineDistance p q = greatCircleDistance p q"
proof -
  let ?x = "radians (latitude p)" and ?y = "radians (latitude q)"
  let ?l = "radians (longitude q - longitude p)"
  let ?a = "hav (?y - ?x) + cos ?x * cos ?y * hav ?l"
  have a: "0 \<le> ?a" "?a \<le> 1" by (rule haversine_argument_range)+
  have diff: "radians (latitude q - latitude p) = ?y - ?x"
    by (simp add: radians_def field_simps)
  have "haversineDistance p q = 6371000 * (2 * atan2 (sqrt ?a) (sqrt (1 - ?a)))"
    by (simp add: haversineDistance_def Let_def hav_def radians_def power2_eq_square
                  field_simps)
  also have "\<dots> = 6371000 * (2 * arcsin (sqrt ?a))"
    by (simp only: atan2_sqrt_arcsin [OF a])
  finally show ?thesis
    by (simp add: greatCircleDistance_def centralAngle_def meanEarthRadius_def diff)
qed

lemma centralAngle_arccos:
  "centralAngle p q =
     arccos (sin (radians (latitude p)) * sin (radians (latitude q)) +
             cos (radians (latitude p)) * cos (radians (latitude q)) *
             cos (radians (longitude q - longitude p)))"
proof -
  let ?x = "radians (latitude p)" and ?y = "radians (latitude q)"
  let ?l = "radians (longitude q - longitude p)"
  let ?a = "hav (?y - ?x) + cos ?x * cos ?y * hav ?l"
  let ?X = "sin ?x * sin ?y + cos ?x * cos ?y * cos ?l"
  have a: "0 \<le> ?a" "?a \<le> 1" by (rule haversine_argument_range)+
  have X: "?X = 1 - 2 * ?a"
    by (simp add: hav_half cos_diff field_simps)
  then have Xr: "- 1 \<le> ?X" "?X \<le> 1" using a by simp_all
  let ?t = "arccos ?X"
  have t: "0 \<le> ?t" "?t \<le> pi" "cos ?t = ?X"
    using Xr by (simp_all add: arccos_lbound arccos_ubound)
  have "hav ?t = ?a" using t(3) X by (simp add: hav_half)
  then have "(sin (?t / 2))\<^sup>2 = ?a" by (simp add: hav_def)
  moreover have "0 \<le> sin (?t / 2)" using t by (intro sin_ge_zero) simp_all
  ultimately have "sqrt ?a = sin (?t / 2)"
    by (metis real_sqrt_abs abs_of_nonneg)
  then have "arcsin (sqrt ?a) = ?t / 2"
    using t pi_ge_two by (simp add: arcsin_sin)
  moreover have "radians (latitude q - latitude p) = ?y - ?x"
    by (simp add: radians_def field_simps)
  ultimately show ?thesis by (simp add: centralAngle_def)
qed

lemma distanceLoop_consecutive: "distanceLoop ws (Suc 0) 0 = consecutiveDistance ws"
  by (simp add: distanceLoop_sum consecutiveDistance_def haversineDistance_greatCircle)

lemma currentStatsZero_perform:
  assumes "managerInv m" and "currentStatsZero m"
  shows "currentStatsZero (perform m op)"
proof (cases op)
  case (StartSession trigger newId now)
  with assms show ?thesis
    by (auto simp: startSession_def currentStatsZero_def Let_def split: option.splits)
next
  case PauseSession
  with assms show ?thesis
    by (auto simp: pauseSession_def currentStatsZero_def managerInv_def split: option.splits)
next
  case ResumeSession
  with assms show ?thesis
    by (auto simp: resumeSession_def currentStatsZero_def managerInv_def split: option.splits)
next
  case (AddWaypoint location)
  with assms show ?thesis
    by (auto simp: addWaypoint_def currentStatsZero_def managerInv_def Let_def
             split: option.splits)
next
  case (EndSession trigger now)
  with assms show ?thesis
    by (auto simp: endSession_def currentStatsZero_def Let_def split: option.splits)
qed

lemma currentStatsZero_foldl:
  "managerInv m \<Longrightarrow> currentStatsZero m \<Longrightarrow> currentStatsZero (foldl perform m ops)"
  by (induction ops arbitrary: m) (simp_all add: currentStatsZero_perform managerInv_perform)

lemma currentStatsZero_run: "currentStatsZero (run ops)"
proof -
  have "currentStatsZero initialManager"
    by (simp add: currentStatsZero_def initialManager_def)
  then show ?thesis
    unfolding run_def by (rule currentStatsZero_foldl [OF managerInv_initial])
qed

text \<open>
  C6. \<open>endSession\<close> on any reachable manager with a session: with two or more
  waypoints, \<open>totalDuration\<close> is (endTime - startTime) / 1000, \<open>totalDistance\<close> is the
  sum of the great-circle distances (mean Earth radius, law of haversines) of consecutive
  waypoints in arrival order, and
  \<open>averageSpeed\<close> is their quotient when the duration is positive and 0 otherwise; with
  fewer than two waypoints all three stay 0, and \<open>endSession\<close> succeeds in both cases.
\<close>

theorem endSession_statistics:
  assumes cur: "currentSession (run ops) = Some a"
  shows "\<exists>c m'. endSession trigger now (run ops) = Inr (c, m') \<and>
           status (sessions m' ! c) = Completed \<and>
           startTime (sessions m' ! c) = startTime (sessions (run ops) ! a) \<and>
           endTime (sessions m' ! c) = Some now \<and>
           (2 \<le> length (waypoints (run ops)) \<longrightarrow>
              totalDuration (sessions m' ! c) = (now - startTime (sessions m' ! c)) / 1000 \<and>
              totalDistance (sessions m' ! c) = consecutiveDistance (waypoints (run ops)) \<and>
              averageSpeed (sessions m' ! c) =
                (if totalDuration (sessions m' ! c) > 0
                 then totalDistance (sessions m' ! c) / totalDuration (sessions m' ! c)
                 else 0)) \<and>
           (length (waypoints (run ops)) < 2 \<longrightarrow>
              totalDistance (sessions m' ! c) = 0 \<and>
              totalDuration (sessions m' ! c) = 0 \<and>
              averageSpeed (sessions m' ! c) = 0)"
proof -
  let ?m = "run ops"
  let ?cur = "(sessions ?m ! a)\<lparr>endTime := Some now, endTrigger := Some trigger,
                                  status := Completed,
                                  waypointCount := length (waypoints ?m)\<rparr>"
  from endSession_result [OF cur, of trigger now] obtain c m' where
    ended: "endSession trigger now ?m = Inr (c, m')"
      "sessions m' ! c = calculateStats (waypoints ?m) ?cur"
    by blast
  have zero: "totalDistance (sessions ?m ! a) = 0" "totalDuration (sessions ?m ! a) = 0"
      "averageSpeed (sessions ?m ! a) = 0"
    using currentStatsZero_run [of ops] cur by (simp_all add: currentStatsZero_def)
  have few: "calculateStats (waypoints ?m) ?cur = ?cur" if "length (waypoints ?m) < 2"
    using that by (simp add: calculateStats_def)
  have many: "calculateStats (waypoints ?m) ?cur =
      (let d = (now - startTime (sessions ?m ! a)) / 1000;
           cur2 = ?cur\<lparr>totalDuration := d,
                        totalDistance := consecutiveDistance (waypoints ?m)\<rparr>
       in if d > 0 then cur2\<lparr>averageSpeed := consecutiveDistance (waypoints ?m) / d\<rparr>
          else cur2)"
    if "2 \<le> length (waypoints ?m)"
    using that by (simp add: calculateStats_def Let_def distanceLoop_consecutive)
  show ?thesis
  proof (cases "length (waypoints ?m) < 2")
    case True
    with ended few zero show ?thesis by simp
  next
    case False
    then have "2 \<le> length (waypoints ?m)" by simp
    with ended many zero show ?thesis by (simp add: Let_def)
  qed
qed

theorem endSession_statistics_witness:
  "\<exists>c m'. endSession TriggerManual 101000
       (run [StartSession TriggerManual ''s1'' 1000,
             AddWaypoint (samplePoint 0 0 6 2000),
             AddWaypoint (samplePoint 0 (1/100) 6 3000)]) = Inr (c, m') \<and>
     totalDuration (sessions m' ! c) = 100 \<and>
     totalDistance (sessions m' ! c) = 6371 * pi / 18 \<and>
     averageSpeed (sessions m' ! c) = 6371 * pi / 1800"
proof -
  let ?ops = "[StartSession TriggerManual ''s1'' 1000,
             AddWaypoint (samplePoint 0 0 6 2000),
             AddWaypoint (samplePoint 0 (1/100) 6 3000)]"
  have cur: "currentSession (run ?ops) = Some 0"
    by (simp add: run_def initialManager_def startSession_def addWaypoint_def Let_def
                  samplePoint_def)
  have len: "length (waypoints (run ?ops)) = 2"
    by (simp add: run_def initialManager_def startSession_def addWaypoint_def Let_def
                  samplePoint_def)
  have st: "startTime (sessions (run ?ops) ! 0) = 1000"
    by (simp add: run_def initialManager_def startSession_def addWaypoint_def Let_def
                  samplePoint_def)
  have angle: "arccos (cos (pi / 18000)) = pi / 18000"
    by (rule arccos_cos) (simp_all add: field_simps)
  have "consecutiveDistance (waypoints (run ?ops)) =
      meanEarthRadius * arccos (cos (radians (1 / 100)))"
    by (simp add: consecutiveDistance_def greatCircleDistance_def centralAngle_arccos
                  LocationData.extend_def samplePoint_def run_def initialManager_def
                  startSession_def addWaypoint_def Let_def numeral_2_eq_2 radians_def)
  also have "radians (1 / 100) = pi / 18000" by (simp add: radians_def)
  finally have dist: "consecutiveDistance (waypoints (run ?ops)) = 6371 * pi / 18"
    by (simp add: angle meanEarthRadius_def)
  from endSession_statistics [OF cur, of TriggerManual 101000] obtain c m' where
    r: "endSession TriggerManual 101000 (run ?ops) = Inr (c, m')"
       "startTime (sessions m' ! c) = startTime (sessions (run ?ops) ! 0)"
       "2 \<le> length (waypoints (run ?ops)) \<longrightarrow>
              totalDuration (sessions m' ! c) = (101000 - startTime (sessions m' ! c)) / 1000 \<and>
              totalDistance (sessions m' ! c) = consecutiveDistance (waypoints (run ?ops)) \<and>
              averageSpeed (sessions m' ! c) =
                (if totalDuration (sessions m' ! c) > 0
                 then totalDistance (sessions m' ! c) / totalDuration (sessions m' ! c)
                 else 0)"
    by blast
  have "2 \<le> length (waypoints (run ?ops))" using len by simp
  with r(3) have vals:
     "totalDuration (sessions m' ! c) = (101000 - startTime (sessions m' ! c)) / 1000"
     "totalDistance (sessions m' ! c) = consecutiveDistance (waypoints (run ?ops))"
     "averageSpeed (sessions m' ! c) =
                (if totalDuration (sessions m' ! c) > 0
                 then totalDistance (sessions m' ! c) / totalDuration (sessions m' ! c)
                 else 0)" by blast+
  from vals(1) r(2) st have d: "totalDuration (sessions m' ! c) = 100" by simp
  from vals(2) dist have td: "totalDistance (sessions m' ! c) = 6371 * pi / 18" by simp
  from vals(3) d td have "averageSpeed (sessions m' ! c) = 6371 * pi / 1800" by simp
  with r(1) d td show ?thesis by blast
qed



section \<open>Properties of DrivingDetector\<close>

lemma processAll_Nil [simp]: "processAll d [] = d"
  by (simp add: processAll_def)

lemma processAll_Cons [simp]:
  "processAll d (x # xs) = processAll (snd (processLocation (fst x) (snd x) d)) xs"
  by (simp add: processAll_def case_prod_unfold)

lemma processAll_append [simp]: "processAll d (xs @ ys) = processAll (processAll d xs) ys"
  by (simp add: processAll_def)

lemma conditions_processLocation [simp]:
  "conditions (snd (processLocation dateNow location d)) = conditions d"
  by (simp add: processLocation_def Let_def)

lemma conditions_processAll [simp]: "conditions (processAll d calls) = conditions d"
  by (induction calls arbitrary: d) simp_all

lemma still_step:
  assumes "\<not> moving (conditions d) x"
  shows "drivingStartTime (snd (processLocation (fst x) (snd x) d)) = drivingStartTime d"
    and "state (snd (processLocation (fst x) (snd x) d)) = Driving \<Longrightarrow> state d = Driving"
  using assms by (auto simp: processLocation_def moving_def Let_def split: if_splits)

lemma still_all:
  assumes "\<forall>x \<in> set pre. \<not> moving (conditions d) x"
  shows "drivingStartTime (processAll d pre) = drivingStartTime d \<and>
         (state (processAll d pre) = Driving \<longrightarrow> state d = Driving)"
  using assms
proof (induction pre arbitrary: d)
  case Nil
  then show ?case by simp
next
  case (Cons x pre)
  let ?d = "snd (processLocation (fst x) (snd x) d)"
  from Cons.prems have "\<forall>x \<in> set pre. \<not> moving (conditions ?d) x" by simp
  from Cons.IH [OF this] still_step [of d x] Cons.prems show ?case by simp
qed

lemma moving_step_marked:
  assumes "moving (conditions d) x" and "drivingStartTime d = Some t0" and "t0 \<noteq> 0"
  shows "drivingStartTime (snd (processLocation (fst x) (snd x) d)) = Some t0"
    and "state (snd (processLocation (fst x) (snd x) d)) = Driving \<longleftrightarrow>
           state d = Driving \<or> timestamp (snd x) \<ge> t0 + 1000 * minDuration (conditions d)"
  using assms
  by (auto simp: processLocation_def moving_def Let_def falsy_def orZero_def field_simps)

lemma moving_step_fresh:
  assumes "moving (conditions d) x" and "falsy (drivingStartTime d)"
  shows "drivingStartTime (snd (processLocation (fst x) (snd x) d)) = Some (timestamp (snd x))"
    and "state (snd (processLocation (fst x) (snd x) d)) =
           (if minDuration (conditions d) \<le> 0 then Driving else Detecting)"
  using assms
  by (auto simp: processLocation_def moving_def Let_def orZero_def)

lemma moving_all_marked:
  assumes "\<forall>x \<in> set xs. moving (conditions d) x" and "drivingStartTime d = Some t0" and "t0 \<noteq> 0"
  shows "drivingStartTime (processAll d xs) = Some t0 \<and>
         (state (processAll d xs) = Driving \<longleftrightarrow>
            state d = Driving \<or>
            (\<exists>x \<in> set xs. timestamp (snd x) \<ge> t0 + 1000 * minDuration (conditions d)))"
  using assms
proof (induction xs arbitrary: d)
  case Nil
  then show ?case by simp
next
  case (Cons x xs)
  let ?d = "snd (processLocation (fst x) (snd x) d)"
  from Cons.prems have mv: "moving (conditions d) x" by simp
  note one = moving_step_marked [OF mv Cons.prems(2,3)]
  from Cons.prems have "\<forall>x \<in> set xs. moving (conditions ?d) x" by simp
  from Cons.IH [OF this one(1) Cons.prems(3)] one(2) show ?case by auto
qed

text \<open>
  Where no moving sample precedes the sustained motion, the detector does what is asked of
  it. A stream processed from a reset detector, made of samples below \<open>minSpeed\<close>
  followed by samples at or above it, the first of which has the non-zero timestamp
  \<open>t0\<close>: after any non-empty initial part \<open>seen\<close> of the moving samples the state is
  \<open>driving\<close> exactly when a sample of \<open>seen\<close> is at least \<open>minDuration\<close> seconds after
  \<open>t0\<close>.
\<close>

lemma driving_after_minDuration:
  assumes still: "\<forall>x \<in> set pre. \<not> moving (conditions d) x"
    and sustained: "\<forall>x \<in> set seen. moving (conditions d) x"
    and first: "seen \<noteq> []" "timestamp (snd (hd seen)) = t0"
    and nonzero: "t0 \<noteq> 0"
  shows "state (processAll (reset d) (pre @ seen)) = Driving \<longleftrightarrow>
         (\<exists>x \<in> set seen. timestamp (snd x) \<ge> t0 + 1000 * minDuration (conditions d))"
proof -
  let ?c = "conditions d"
  let ?d1 = "processAll (reset d) pre"
  have c: "conditions (reset d) = ?c" by (simp add: reset_def)
  have "drivingStartTime (reset d) = None" "state (reset d) \<noteq> Driving"
    by (simp_all add: reset_def)
  with still_all [of pre "reset d"] still c
  have d1: "drivingStartTime ?d1 = None" "state ?d1 \<noteq> Driving" "conditions ?d1 = ?c"
    by simp_all
  from first obtain x xs where seen: "seen = x # xs" "timestamp (snd x) = t0"
    by (cases seen) auto
  let ?d2 = "snd (processLocation (fst x) (snd x) ?d1)"
  from sustained seen d1 have mv: "moving (conditions ?d1) x" by simp
  have fresh: "falsy (drivingStartTime ?d1)" using d1 by (simp add: falsy_def)
  note two = moving_step_fresh [OF mv fresh]
  have d2: "drivingStartTime ?d2 = Some t0"
      "state ?d2 = Driving \<longleftrightarrow> timestamp (snd x) \<ge> t0 + 1000 * minDuration ?c"
    using two seen d1 by simp_all
  from sustained seen d1 have "\<forall>y \<in> set xs. moving (conditions ?d2) y" by simp
  from moving_all_marked [OF this d2(1) nonzero] d2(2) d1(3) seen
  show ?thesis by auto
qed

text \<open>
  C2. The claim fails on the code when a moving sample precedes the sustained motion.
  Samples at 6, 0 and 6 m/s at 1 s, 2 s and 100 s, from a reset detector with the default
  conditions: the slow sample does not clear the marker set at 1 s (the other branch does
  clear \<open>stationaryStartTime\<close>), so the motion that starts at 100 s is reported as
  \<open>driving\<close> at its first sample, 60 s too early.
\<close>

theorem stale_marker_driving_early:
  "\<not> moving defaultConditions (call 2000 0) \<and>
   moving defaultConditions (call 100000 6) \<and>
   timestamp (snd (call 100000 6)) < 100000 + 1000 * minDuration defaultConditions \<and>
   state (processAll (reset (newDetector defaultConditions))
            [call 1000 6, call 2000 0, call 100000 6]) = Driving"
  by (simp add: processLocation_def moving_def call_def samplePoint_def defaultConditions_def
                newDetector_def reset_def falsy_def orZero_def Let_def)

text \<open>
  C3. The claim fails on the code after a drive. Samples at 6, 6, 0, 0 and 6 m/s at 1 s,
  61 s, 62 s, 182 s and 183 s: the detector is \<open>driving\<close>, then \<open>stationary\<close>, and the one
  moving sample at 183 s makes it \<open>driving\<close> at once, without \<open>detecting\<close> and with the
  marker of 1 s still in place. It is the defect of C2: the marker is never cleared.
\<close>

theorem stationary_directly_driving:
  "state (processAll (newDetector defaultConditions)
            [call 1000 6, call 61000 6, call 62000 0, call 182000 0]) = Stationary \<and>
   moving defaultConditions (call 183000 6) \<and>
   state (processAll (newDetector defaultConditions)
            [call 1000 6, call 61000 6, call 62000 0, call 182000 0, call 183000 6]) = Driving \<and>
   drivingStartTime (processAll (newDetector defaultConditions)
            [call 1000 6, call 61000 6, call 62000 0, call 182000 0, call 183000 6]) = Some 1000"
  by (simp add: processLocation_def moving_def call_def samplePoint_def defaultConditions_def
                newDetector_def falsy_def orZero_def Let_def)

text \<open>
  A marker equal to 0 counts as unset (\<open>!this.drivingStartTime\<close>): the next moving sample
  sets it again. Lemma \<open>driving_after_minDuration\<close> therefore asks for a non-zero first
  timestamp.
\<close>

lemma zero_timestamp_marker_is_reset:
  "drivingStartTime (processAll (newDetector defaultConditions) [call 0 6, call 60000 6]) =
     Some 60000 \<and>
   state (processAll (newDetector defaultConditions) [call 0 6, call 60000 6]) = Detecting"
  by (simp add: processLocation_def call_def samplePoint_def defaultConditions_def
                newDetector_def falsy_def orZero_def Let_def)

section \<open>Properties of the orchestrator\<close>

lemma endTrigger_calculateStats [simp]:
  "endTrigger (calculateStats ws cur) = endTrigger cur"
  by (simp add: calculateStats_def Let_def)

lemma isSessionActive_current:
  "isSessionActive m \<Longrightarrow> \<exists>a. currentSession m = Some a"
  by (simp add: isSessionActive_def split: option.splits)

text \<open>
  C8. \<open>handleCarDisconnected\<close> with status \<open>driving\<close> and a non-completed session: the
  session is ended with the trigger \<open>bluetooth\<close> carrying the device's id and name, every
  handler gets \<open>BLUETOOTH_DISCONNECTED\<close> and then one \<open>SESSION_ENDED\<close> with the completed
  session, the status becomes \<open>monitoring\<close> and the tracking mode \<open>monitoring\<close>. In any
  other case only \<open>BLUETOOTH_DISCONNECTED\<close> is delivered: session and status are as before.
\<close>

theorem disconnect_ends_session:
  "(sentry_status s = StatusDriving \<and> isSessionActive (sessionManager s) \<longrightarrow>
      (\<exists>a c m'. currentSession (sessionManager s) = Some a \<and>
         endSession (TriggerBluetooth (device_id device) (device_name device)) newDate
           (sessionManager s) = Inr (c, m') \<and>
         handleCarDisconnected device newDate s =
           (None,
            s\<lparr>sentry_status := StatusMonitoring,
              currentMode := ModeMonitoring,
              sessionManager := m',
              delivered := delivered s @
                 map (\<lambda>handler. (handler, BLUETOOTH_DISCONNECTED device)) (eventHandlers s) @
                 map (\<lambda>handler. (handler, SESSION_ENDED c)) (eventHandlers s)\<rparr>) \<and>
         status (sessions m' ! c) = Completed \<and>
         endTrigger (sessions m' ! c) =
           Some (TriggerBluetooth (device_id device) (device_name device)) \<and>
         session_id (sessions m' ! c) = session_id (sessions (sessionManager s) ! a) \<and>
         currentSession m' = None)) \<and>
   (\<not> (sentry_status s = StatusDriving \<and> isSessionActive (sessionManager s)) \<longrightarrow>
      handleCarDisconnected device newDate s =
        (None, s\<lparr>delivered := delivered s @
                 map (\<lambda>handler. (handler, BLUETOOTH_DISCONNECTED device)) (eventHandlers s)\<rparr>))"
proof -
  let ?t = "TriggerBluetooth (device_id device) (device_name device)"
  have ended: "\<exists>a c m'. currentSession (sessionManager s) = Some a \<and>
         endSession ?t newDate (sessionManager s) = Inr (c, m') \<and>
         handleCarDisconnected device newDate s =
           (None,
            s\<lparr>sentry_status := StatusMonitoring,
              currentMode := ModeMonitoring,
              sessionManager := m',
              delivered := delivered s @
                 map (\<lambda>handler. (handler, BLUETOOTH_DISCONNECTED device)) (eventHandlers s) @
                 map (\<lambda>handler. (handler, SESSION_ENDED c)) (eventHandlers s)\<rparr>) \<and>
         status (sessions m' ! c) = Completed \<and>
         endTrigger (sessions m' ! c) = Some ?t \<and>
         session_id (sessions m' ! c) = session_id (sessions (sessionManager s) ! a) \<and>
         currentSession m' = None"
    if drv: "sentry_status s = StatusDriving" and act: "isSessionActive (sessionManager s)"
  proof -
    from isSessionActive_current [OF act] obtain a where
      a: "currentSession (sessionManager s) = Some a" by blast
    from endSession_result [OF a, of ?t newDate] obtain c m' where
      e: "endSession ?t newDate (sessionManager s) = Inr (c, m')"
         "sessions m' ! c =
             calculateStats (waypoints (sessionManager s))
               ((sessions (sessionManager s) ! a)\<lparr>endTime := Some newDate,
                   endTrigger := Some ?t, status := Completed,
                   waypointCount := length (waypoints (sessionManager s))\<rparr>)"
         "currentSession m' = None"
      by blast
    have run: "handleCarDisconnected device newDate s =
           (None,
            s\<lparr>sentry_status := StatusMonitoring,
              currentMode := ModeMonitoring,
              sessionManager := m',
              delivered := delivered s @
                 map (\<lambda>handler. (handler, BLUETOOTH_DISCONNECTED device)) (eventHandlers s) @
                 map (\<lambda>handler. (handler, SESSION_ENDED c)) (eventHandlers s)\<rparr>)"
      using drv act e(1)
      by (simp add: handleCarDisconnected_def emit_def setTrackingMode_def Let_def)
    have "status (sessions m' ! c) = Completed" "endTrigger (sessions m' ! c) = Some ?t"
      "session_id (sessions m' ! c) = session_id (sessions (sessionManager s) ! a)"
      using e(2) by simp_all
    with a e(1,3) run show ?thesis by blast
  qed
  have other: "handleCarDisconnected device newDate s =
        (None, s\<lparr>delivered := delivered s @
                 map (\<lambda>handler. (handler, BLUETOOTH_DISCONNECTED device)) (eventHandlers s)\<rparr>)"
    if "\<not> (sentry_status s = StatusDriving \<and> isSessionActive (sessionManager s))"
    using that by (auto simp: handleCarDisconnected_def emit_def Let_def)
  from ended other show ?thesis by blast
qed

lemma monitoringSentry_eq:
  "monitoringSentry =
     \<lparr>sentry_status = StatusMonitoring, eventHandlers = [1, 2], isInitialized = True,
      drivingDetector = newDetector defaultConditions, sessionManager = initialManager,
      bleManager = True, isScanning = True, connectedDevices = [],
      isTracking = True, currentMode = ModeMonitoring,
      delivered = [], unhandledRejections = []\<rparr>"
  by (simp add: monitoringSentry_def newSentry_def subscribe_def initialize_def start_def)

lemma drivingSentry_eq:
  "drivingSentry =
     \<lparr>sentry_status = StatusDriving, eventHandlers = [1, 2], isInitialized = True,
      drivingDetector =
        \<lparr>conditions = defaultConditions, state = Driving,
         locationHistory = [samplePoint 0 0 6 1000, samplePoint 0 0 6 61000],
         drivingStartTime = Some 1000, stationaryStartTime = None\<rparr>,
      sessionManager =
        \<lparr>sessions = [\<lparr>session_id = ''session'', startTime = 61000, endTime = None,
                       status = Active, startTrigger = TriggerGps (samplePoint 0 0 6 61000),
                       endTrigger = None, totalDistance = 0, totalDuration = 0,
                       averageSpeed = 0, maxSpeed = 0, waypointCount = 0\<rparr>],
         currentSession = Some 0, waypoints = []\<rparr>,
      bleManager = True, isScanning = True, connectedDevices = [],
      isTracking = True, currentMode = ModeDriving,
      delivered =
        [(1, LOCATION_UPDATE (samplePoint 0 0 6 1000)), (2, LOCATION_UPDATE (samplePoint 0 0 6 1000)),
         (1, LOCATION_UPDATE (samplePoint 0 0 6 61000)), (2, LOCATION_UPDATE (samplePoint 0 0 6 61000)),
         (1, DRIVING_DETECTED), (2, DRIVING_DETECTED),
         (1, SESSION_STARTED 0), (2, SESSION_STARTED 0)],
      unhandledRejections = []\<rparr>"
  unfolding drivingSentry_def monitoringSentry_eq
  by (simp add: feed_def locationUpdate_def samplePoint_def emit_def setTrackingMode_def
        isCarConnected_def handleLocationUpdate_def handleDrivingDetected_def
        processLocation_def getResult_def newDetector_def defaultConditions_def falsy_def
        orZero_def initialManager_def startSession_def Let_def)

lemma pausedSentry_eq:
  "pausedSentry =
     drivingSentry
       \<lparr>sentry_status := StatusPaused,
        drivingDetector :=
          \<lparr>conditions = defaultConditions, state = Stationary,
           locationHistory = [samplePoint 0 0 6 1000, samplePoint 0 0 6 61000,
                              samplePoint 0 0 0 62000, samplePoint 0 0 0 182000],
           drivingStartTime = Some 1000, stationaryStartTime = Some 62000\<rparr>,
        sessionManager :=
          \<lparr>sessions = [\<lparr>session_id = ''session'', startTime = 61000, endTime = None,
                         status = Paused, startTrigger = TriggerGps (samplePoint 0 0 6 61000),
                         endTrigger = None, totalDistance = 0, totalDuration = 0,
                         averageSpeed = 0, maxSpeed = 0, waypointCount = 0\<rparr>],
           currentSession = Some 0,
           waypoints = [LocationData.extend (samplePoint 0 0 0 62000)
                          \<lparr>waypoint_id = 1, sessionId = ''session''\<rparr>]\<rparr>,
        currentMode := ModePaused,
        delivered := delivered drivingSentry @
          [(1, LOCATION_UPDATE (samplePoint 0 0 0 62000)), (2, LOCATION_UPDATE (samplePoint 0 0 0 62000)),
           (1, LOCATION_UPDATE (samplePoint 0 0 0 182000)), (2, LOCATION_UPDATE (samplePoint 0 0 0 182000)),
           (1, DRIVING_PAUSED), (2, DRIVING_PAUSED)]\<rparr>"
  unfolding pausedSentry_def drivingSentry_eq
  by (simp add: feed_def locationUpdate_def samplePoint_def emit_def setTrackingMode_def
        handleLocationUpdate_def handleDrivingPaused_def
        processLocation_def getResult_def defaultConditions_def falsy_def
        orZero_def isSessionActive_def pauseSession_def addWaypoint_def Let_def
        LocationData.extend_def)

text \<open>
  C4. The orchestrator is \<open>paused\<close> with a paused session and the next sample makes the
  detector report \<open>driving\<close>: the status becomes \<open>driving\<close>, but \<open>startSession\<close>
  throws and the rejection is unhandled; the session stays paused (\<open>resumeSession\<close> is
  never called), the tracking mode stays \<open>paused\<close>, and the waypoint of the following
  sample is dropped.
\<close>

theorem paused_to_driving_throws:
  "sentry_status pausedSentry = StatusPaused \<and>
   currentSession (sessionManager pausedSentry) = Some 0 \<and>
   status (sessions (sessionManager pausedSentry) ! 0) = Paused \<and>
   state (drivingDetector (feed pausedSentry [locationUpdate 183000 6])) = Driving \<and>
   sentry_status (feed pausedSentry [locationUpdate 183000 6]) = StatusDriving \<and>
   unhandledRejections (feed pausedSentry [locationUpdate 183000 6]) =
     [Error ''Cannot start new session while one is active''] \<and>
   sessionManager (feed pausedSentry [locationUpdate 183000 6]) = sessionManager pausedSentry \<and>
   currentMode (feed pausedSentry [locationUpdate 183000 6]) = ModePaused \<and>
   delivered (feed pausedSentry [locationUpdate 183000 6]) =
     delivered pausedSentry @
       [(1, LOCATION_UPDATE (samplePoint 0 0 6 183000)),
        (2, LOCATION_UPDATE (samplePoint 0 0 6 183000)),
        (1, DRIVING_DETECTED), (2, DRIVING_DETECTED)] \<and>
   sessionManager (feed pausedSentry [locationUpdate 183000 6, locationUpdate 184000 6]) =
     sessionManager pausedSentry"
  unfolding pausedSentry_eq drivingSentry_eq
  by (simp add: feed_def locationUpdate_def samplePoint_def emit_def setTrackingMode_def
        isCarConnected_def handleLocationUpdate_def handleDrivingDetected_def
        processLocation_def getResult_def defaultConditions_def falsy_def
        orZero_def isSessionActive_def startSession_def addWaypoint_def Let_def)

text \<open>\<open>stop\<close> never delivers a \<open>SESSION_ENDED\<close> event.\<close>

lemma stop_emits_no_session_event:
  "filter (\<lambda>d. isSessionEnded (snd d)) (delivered (snd (stop newDate bleStop locStop s))) =
   filter (\<lambda>d. isSessionEnded (snd d)) (delivered s)"
  by (auto simp: stop_def emit_def Let_def split: sum.splits option.splits if_splits prod.splits)

text \<open>
  C5. \<open>stop\<close> with a session active: the session is completed with the trigger
  \<open>manual\<close> and the status becomes \<open>idle\<close>, but no event at all is delivered, so no
  \<open>SESSION_ENDED\<close>.
\<close>

theorem stop_emits_no_session_ended:
  "isSessionActive (sessionManager drivingSentry) \<and>
   eventHandlers drivingSentry = [1, 2] \<and>
   fst (stop 70000 None None drivingSentry) = None \<and>
   delivered (snd (stop 70000 None None drivingSentry)) = delivered drivingSentry \<and>
   filter (\<lambda>d. isSessionEnded (snd d)) (delivered (snd (stop 70000 None None drivingSentry))) = [] \<and>
   currentSession (sessionManager (snd (stop 70000 None None drivingSentry))) = None \<and>
   status (sessions (sessionManager (snd (stop 70000 None None drivingSentry))) ! 1) = Completed \<and>
   endTrigger (sessions (sessionManager (snd (stop 70000 None None drivingSentry))) ! 1) =
     Some TriggerManual \<and>
   sentry_status (snd (stop 70000 None None drivingSentry)) = StatusIdle"
  unfolding drivingSentry_eq
  by (simp add: stop_def isSessionActive_def endSession_def calculateStats_def Let_def)

theorem disconnect_ends_session_witness:
  "sentry_status (snd (handleCarDisconnected carDevice 70000 drivingSentry)) = StatusMonitoring \<and>
   currentMode (snd (handleCarDisconnected carDevice 70000 drivingSentry)) = ModeMonitoring \<and>
   currentSession (sessionManager (snd (handleCarDisconnected carDevice 70000 drivingSentry))) = None \<and>
   filter (\<lambda>d. isSessionEnded (snd d))
     (delivered (snd (handleCarDisconnected carDevice 70000 drivingSentry))) =
     [(1, SESSION_ENDED 1), (2, SESSION_ENDED 1)] \<and>
   endTrigger (sessions (sessionManager (snd (handleCarDisconnected carDevice 70000 drivingSentry))) ! 1)
     = Some (TriggerBluetooth (js ''AA:BB'') (js ''My Car'')) \<and>
   handleCarDisconnected carDevice 70000 pausedSentry =
     (None, pausedSentry\<lparr>delivered := delivered pausedSentry @
        [(1, BLUETOOTH_DISCONNECTED carDevice), (2, BLUETOOTH_DISCONNECTED carDevice)]\<rparr>)"
proof -
  have pre: "sentry_status drivingSentry = StatusDriving \<and>
             isSessionActive (sessionManager drivingSentry)"
    unfolding drivingSentry_eq by (simp add: isSessionActive_def)
  have c: "endSession (TriggerBluetooth (device_id carDevice) (device_name carDevice)) 70000
             (sessionManager drivingSentry) = Inr (c, m') \<Longrightarrow> c = 1" for c m'
    unfolding drivingSentry_eq by (auto simp: endSession_def Let_def)
  have hs: "eventHandlers drivingSentry = [1, 2]"
    "filter (\<lambda>d. isSessionEnded (snd d)) (delivered drivingSentry) = []"
    unfolding drivingSentry_eq by simp_all
  have other: "\<not> (sentry_status pausedSentry = StatusDriving \<and>
                   isSessionActive (sessionManager pausedSentry))"
     "eventHandlers pausedSentry = [1, 2]"
    unfolding pausedSentry_eq drivingSentry_eq by simp_all
  from pre disconnect_ends_session [of drivingSentry carDevice 70000]
  obtain a c m' where r:
    "endSession (TriggerBluetooth (device_id carDevice) (device_name carDevice)) 70000
           (sessionManager drivingSentry) = Inr (c, m')"
    "handleCarDisconnected carDevice 70000 drivingSentry =
           (None,
            drivingSentry\<lparr>sentry_status := StatusMonitoring,
              currentMode := ModeMonitoring,
              sessionManager := m',
              delivered := delivered drivingSentry @
                 map (\<lambda>handler. (handler, BLUETOOTH_DISCONNECTED carDevice))
                   (eventHandlers drivingSentry) @
                 map (\<lambda>handler. (handler, SESSION_ENDED c)) (eventHandlers drivingSentry)\<rparr>)"
    "endTrigger (sessions m' ! c) =
           Some (TriggerBluetooth (device_id carDevice) (device_name carDevice))"
    "currentSession m' = None"
    by blast
  from c [OF r(1)] have "c = 1" .
  with r(2,3,4) hs have first:
   "sentry_status (snd (handleCarDisconnected carDevice 70000 drivingSentry)) = StatusMonitoring \<and>
   currentMode (snd (handleCarDisconnected carDevice 70000 drivingSentry)) = ModeMonitoring \<and>
   currentSession (sessionManager (snd (handleCarDisconnected carDevice 70000 drivingSentry))) = None \<and>
   filter (\<lambda>d. isSessionEnded (snd d))
     (delivered (snd (handleCarDisconnected carDevice 70000 drivingSentry))) =
     [(1, SESSION_ENDED 1), (2, SESSION_ENDED 1)] \<and>
   endTrigger (sessions (sessionManager (snd (handleCarDisconnected carDevice 70000 drivingSentry))) ! 1)
     = Some (TriggerBluetooth (js ''AA:BB'') (js ''My Car''))"
    by (simp add: carDevice_def)
  from other disconnect_ends_session [of pausedSentry carDevice 70000]
  have "handleCarDisconnected carDevice 70000 pausedSentry =
     (None, pausedSentry\<lparr>delivered := delivered pausedSentry @
        [(1, BLUETOOTH_DISCONNECTED carDevice), (2, BLUETOOTH_DISCONNECTED carDevice)]\<rparr>)"
    by simp
  with first show ?thesis by blast
qed

section \<open>Properties of CarBluetoothMatcher\<close>

lemma canonicalize_asciiLower [simp]: "canonicalize (asciiLower c) = canonicalize c"
  unfolding canonicalize_def asciiLower_def
  by (auto simp: word_le_nat_alt unat_word_ariths unat_sub word_less_nat_alt)

lemma nonAsciiTableD:
  assumes "nonAsciiTable table" and "0x80 \<le> c" and "c \<noteq> 0x212A" and "c \<noteq> 0x130"
  shows "table before (c # cs) \<noteq> []" and "\<forall>u \<in> set (table before (c # cs)). 0x80 \<le> u"
  using assms unfolding nonAsciiTable_def by blast+

lemma canonicalize_ascii: "q < 0x80 \<Longrightarrow> canonicalize q < 0x80"
  unfolding canonicalize_def
  by (auto simp: word_le_nat_alt unat_sub word_less_nat_alt)

lemma canonicalize_nonAscii: "0x80 \<le> u \<Longrightarrow> canonicalize u = u"
  unfolding canonicalize_def
  by (auto simp: word_le_nat_alt)

lemma canonicalize_differ: "q < 0x80 \<Longrightarrow> 0x80 \<le> u \<Longrightarrow> canonicalize q \<noteq> canonicalize u"
  using canonicalize_ascii [of q] canonicalize_nonAscii [of u]
  by (auto simp: word_le_nat_alt word_less_nat_alt)

lemma matchesAt_nonAscii:
  assumes "asciiPattern pattern" and "0x80 \<le> u"
  shows "matchesAt pattern (u # rest) \<longleftrightarrow> pattern = []"
  using assms
  by (cases pattern) (auto simp: asciiPattern_def canonicalize_differ)

lemma matchesAt_block:
  assumes "asciiPattern pattern" and "ys \<noteq> []" and "\<forall>u \<in> set ys. 0x80 \<le> u"
  shows "matchesAt pattern (ys @ rest) \<longleftrightarrow> pattern = []"
  using assms by (cases ys) (auto simp: matchesAt_nonAscii)

lemma regexTest_nonAscii:
  assumes "asciiPattern pattern" and "pattern \<noteq> []" and "0x80 \<le> u"
  shows "regexTest pattern (u # rest) = regexTest pattern rest"
  using assms by (simp add: matchesAt_nonAscii)

lemma regexTest_block:
  assumes "asciiPattern pattern" and "pattern \<noteq> []" and "\<forall>u \<in> set ys. 0x80 \<le> u"
  shows "regexTest pattern (ys @ rest) = regexTest pattern rest"
  using assms by (induction ys) (auto simp: matchesAt_nonAscii)

lemma surrogate_nonAscii:
  "surrogatePair c d \<Longrightarrow> 0x80 \<le> c \<and> 0x80 \<le> d"
  by (auto simp: surrogatePair_def word_le_nat_alt)

lemma surrogate_plain:
  "surrogatePair c d \<Longrightarrow> c \<noteq> 0x212A \<and> c \<noteq> 0x130"
  by (auto simp: surrogatePair_def word_le_nat_alt)

lemma not_less_ascii: "\<not> c < (0x80 :: 16 word) \<Longrightarrow> 0x80 \<le> c"
  by (simp add: word_le_nat_alt word_less_nat_alt)

lemma asciiPattern_tl: "asciiPattern (q # qs) \<Longrightarrow> asciiPattern qs"
  by (simp add: asciiPattern_def)

lemma matchesAt_ascii_step:
  assumes "\<And>p. asciiPattern p \<Longrightarrow> matchesAt p low = matchesAt p rest"
    and "asciiPattern pattern"
  shows "matchesAt pattern (asciiLower c # low) = matchesAt pattern (c # rest)"
  using assms by (cases pattern) (auto dest: asciiPattern_tl)

lemma matchesAt_lowerFrom:
  assumes "nonAsciiTable table" and "plainName name" and "asciiPattern pattern"
  shows "matchesAt pattern (lowerFrom table before name) = matchesAt pattern name"
  using assms
proof (induction table before name arbitrary: pattern rule: lowerFrom.induct)
  case (1 table before)
  then show ?case by simp
next
  case (2 table before c)
  show ?case
  proof (cases "c < 0x80")
    case True
    have "matchesAt pattern (asciiLower c # []) = matchesAt pattern (c # [])"
      using "2.prems" by (intro matchesAt_ascii_step) simp_all
    with True show ?thesis by (simp add: lowerCodePoint_def)
  next
    case False
    then have c: "0x80 \<le> c" by (rule not_less_ascii)
    from "2.prems" have plain: "c \<noteq> 0x212A" "c \<noteq> 0x130" by (simp_all add: plainName_def)
    note t = nonAsciiTableD [OF "2.prems"(1) c plain, of before "[]"]
    have "matchesAt pattern (table before [c] @ []) \<longleftrightarrow> pattern = []"
      using "2.prems"(3) t by (rule matchesAt_block)
    with False plain c "2.prems" show ?thesis
      by (simp add: lowerCodePoint_def matchesAt_nonAscii)
  qed
next
  case (3 table before c d ds)
  show ?case
  proof (cases "surrogatePair c d")
    case True
    then have c: "0x80 \<le> c" using surrogate_nonAscii by blast
    from True have sp: "c \<noteq> 0x212A" "c \<noteq> 0x130" using surrogate_plain by blast+
    note t = nonAsciiTableD [OF "3.prems"(1) c sp, of before "d # ds"]
    have "matchesAt pattern (table before (c # d # ds) @ lowerFrom table (before @ [c, d]) ds)
          \<longleftrightarrow> pattern = []"
      using "3.prems"(3) t by (rule matchesAt_block)
    with True c "3.prems" show ?thesis by (simp add: matchesAt_nonAscii)
  next
    case False
    from "3.prems" have rest: "plainName (d # ds)" by (simp add: plainName_def)
    note IH = "3.IH"(2) [OF False "3.prems"(1) rest]
    show ?thesis
    proof (cases "c < 0x80")
      case True
      have "matchesAt pattern (asciiLower c # lowerFrom table (before @ [c]) (d # ds)) =
            matchesAt pattern (c # d # ds)"
        using IH "3.prems" by (intro matchesAt_ascii_step) simp_all
      with True False show ?thesis by (simp add: lowerCodePoint_def)
    next
      case nonascii: False
      then have c: "0x80 \<le> c" by (rule not_less_ascii)
      from "3.prems" have plain: "c \<noteq> 0x212A" "c \<noteq> 0x130" by (simp_all add: plainName_def)
      note t = nonAsciiTableD [OF "3.prems"(1) c plain, of before "d # ds"]
      have "matchesAt pattern (table before (c # d # ds) @
               lowerFrom table (before @ [c]) (d # ds)) \<longleftrightarrow> pattern = []"
        using "3.prems"(3) t by (rule matchesAt_block)
      with False nonascii plain c "3.prems" show ?thesis
        by (simp add: lowerCodePoint_def matchesAt_nonAscii)
    qed
  qed
qed

lemma regexTest_ascii_step:
  assumes "matchesAt pattern (asciiLower c # low) = matchesAt pattern (c # rest)"
    and "regexTest pattern low = regexTest pattern rest"
  shows "regexTest pattern (asciiLower c # low) = regexTest pattern (c # rest)"
  using assms by simp

lemma regexTest_lowerFrom:
  assumes "nonAsciiTable table" and "plainName name"
    and "asciiPattern pattern" and "pattern \<noteq> []"
  shows "regexTest pattern (lowerFrom table before name) = regexTest pattern name"
  using assms
proof (induction table before name rule: lowerFrom.induct)
  case (1 table before)
  then show ?case by simp
next
  case (2 table before c)
  show ?case
  proof (cases "c < 0x80")
    case True
    have "matchesAt pattern (asciiLower c # []) = matchesAt pattern (c # [])"
      using "2.prems" by (intro matchesAt_ascii_step) simp_all
    with True show ?thesis by (simp add: lowerCodePoint_def)
  next
    case False
    then have c: "0x80 \<le> c" by (rule not_less_ascii)
    from "2.prems" have plain: "c \<noteq> 0x212A" "c \<noteq> 0x130" by (simp_all add: plainName_def)
    note t = nonAsciiTableD [OF "2.prems"(1) c plain, of before "[]"]
    have "regexTest pattern (table before [c] @ []) = regexTest pattern []"
      using "2.prems"(3,4) t(2) by (rule regexTest_block)
    moreover have "regexTest pattern [c] = regexTest pattern []"
      using "2.prems"(3,4) c by (rule regexTest_nonAscii)
    ultimately show ?thesis using False plain by (simp add: lowerCodePoint_def)
  qed
next
  case (3 table before c d ds)
  show ?case
  proof (cases "surrogatePair c d")
    case True
    then have cd: "0x80 \<le> c" "0x80 \<le> d" using surrogate_nonAscii by blast+
    from "3.prems" have rest: "plainName ds" by (simp add: plainName_def)
    from True have sp: "c \<noteq> 0x212A" "c \<noteq> 0x130" using surrogate_plain by blast+
    note t = nonAsciiTableD [OF "3.prems"(1) cd(1) sp, of before "d # ds"]
    have "regexTest pattern (table before (c # d # ds) @ lowerFrom table (before @ [c, d]) ds)
          = regexTest pattern (lowerFrom table (before @ [c, d]) ds)"
      using "3.prems"(3,4) t(2) by (rule regexTest_block)
    also have "\<dots> = regexTest pattern ds"
      by (rule "3.IH"(1) [OF True "3.prems"(1) rest "3.prems"(3,4)])
    also have "\<dots> = regexTest pattern (c # d # ds)"
      using regexTest_nonAscii [OF "3.prems"(3,4) cd(1), of "d # ds"]
            regexTest_nonAscii [OF "3.prems"(3,4) cd(2), of ds] by simp
    finally show ?thesis using True by simp
  next
    case False
    from "3.prems" have rest: "plainName (d # ds)" by (simp add: plainName_def)
    have IH: "regexTest pattern (lowerFrom table (before @ [c]) (d # ds)) =
              regexTest pattern (d # ds)"
      by (rule "3.IH"(2) [OF False "3.prems"(1) rest "3.prems"(3,4)])
    show ?thesis
    proof (cases "c < 0x80")
      case True
      have "matchesAt pattern (asciiLower c # lowerFrom table (before @ [c]) (d # ds)) =
            matchesAt pattern (c # d # ds)"
        using matchesAt_lowerFrom [OF "3.prems"(1) rest] "3.prems"(3)
        by (intro matchesAt_ascii_step) simp_all
      from regexTest_ascii_step [OF this IH] True False show ?thesis
        by (simp add: lowerCodePoint_def)
    next
      case nonascii: False
      then have c: "0x80 \<le> c" by (rule not_less_ascii)
      from "3.prems" have plain: "c \<noteq> 0x212A" "c \<noteq> 0x130" by (simp_all add: plainName_def)
      note t = nonAsciiTableD [OF "3.prems"(1) c plain, of before "d # ds"]
      have "regexTest pattern (table before (c # d # ds) @
               lowerFrom table (before @ [c]) (d # ds))
            = regexTest pattern (lowerFrom table (before @ [c]) (d # ds))"
        using "3.prems"(3,4) t(2) by (rule regexTest_block)
      also note IH
      also have "regexTest pattern (d # ds) = regexTest pattern (c # d # ds)"
        using regexTest_nonAscii [OF "3.prems"(3,4) c, of "d # ds"] by simp
      finally show ?thesis using False nonascii plain by (simp add: lowerCodePoint_def)
    qed
  qed
qed

lemma patterns_ascii: "\<forall>pattern \<in> set patterns. asciiPattern pattern \<and> pattern \<noteq> []"
  by (simp add: patterns_def js_def asciiPattern_def)

lemma matchesCarPattern_lowerFrom:
  assumes "nonAsciiTable table" and "plainName name"
  shows "matchesCarPattern (toLowerCase table name) = matchesCarPattern name"
proof -
  have "regexTest pattern (lowerFrom table [] name) = regexTest pattern name"
    if "pattern \<in> set patterns" for pattern
    using patterns_ascii that regexTest_lowerFrom [OF assms] by blast
  then show ?thesis
    by (simp add: matchesCarPattern_def toLowerCase_def list_ex_iff)
qed

lemma nonAsciiTable_latin1: "nonAsciiTable latin1Table"
  unfolding nonAsciiTable_def latin1Table_def
  by (auto simp: surrogatePair_def word_le_nat_alt unat_word_ariths split: list.splits)

text \<open>
  C9 (as amended). After \<open>tagAsCarDevice\<close> the device is a car device whatever its name;
  \<open>untagCarDevice\<close> returns true exactly when the id had a tag, removes that tag and no
  other, and afterwards \<open>isCarDevice\<close> is \<open>matchesCarPattern\<close> of the name;
  \<open>matchesCarPattern\<close> gives the same result on a name and on the lowercased name, for
  every name that holds neither U+212A nor U+0130.
\<close>

theorem car_device_matching:
  "isCarDevice device (snd (tagAsCarDevice device connectedDate createdDate tags)) \<and>
   (fst (untagCarDevice deviceId tags) \<longleftrightarrow> tags deviceId \<noteq> None) \<and>
   snd (untagCarDevice deviceId tags) deviceId = None \<and>
   (\<forall>other. other \<noteq> deviceId \<longrightarrow> snd (untagCarDevice deviceId tags) other = tags other) \<and>
   isCarDevice device (snd (untagCarDevice (device_id device) tags)) =
     matchesCarPattern (device_name device) \<and>
   (nonAsciiTable table \<and> (\<forall>c \<in> set deviceName. c \<noteq> 0x212A \<and> c \<noteq> 0x130) \<longrightarrow>
      matchesCarPattern (toLowerCase table deviceName) = matchesCarPattern deviceName)"
proof -
  have tagged: "isCarDevice device (snd (tagAsCarDevice device connectedDate createdDate tags))"
    by (simp add: isCarDevice_def tagAsCarDevice_def Let_def)
  have untag: "(fst (untagCarDevice deviceId tags) \<longleftrightarrow> tags deviceId \<noteq> None)"
    "snd (untagCarDevice deviceId tags) deviceId = None"
    "\<forall>other. other \<noteq> deviceId \<longrightarrow> snd (untagCarDevice deviceId tags) other = tags other"
    by (simp_all add: untagCarDevice_def)
  have after: "isCarDevice device (snd (untagCarDevice (device_id device) tags)) =
     matchesCarPattern (device_name device)"
    by (simp add: isCarDevice_def untagCarDevice_def)
  have lower: "matchesCarPattern (toLowerCase table deviceName) = matchesCarPattern deviceName"
    if "nonAsciiTable table" and "\<forall>c \<in> set deviceName. c \<noteq> 0x212A \<and> c \<noteq> 0x130"
    using that by (intro matchesCarPattern_lowerFrom) (simp_all add: plainName_def)
  from tagged untag after lower show ?thesis by blast
qed

theorem car_device_matching_witness:
  "toLowerCase latin1Table [0x4D, 0xDC, 0x20, 0x4B, 0x49, 0x41] =
     [0x6D, 0xFC, 0x20, 0x6B, 0x69, 0x61] \<and>
   matchesCarPattern [0x4D, 0xDC, 0x20, 0x4B, 0x49, 0x41] \<and>
   matchesCarPattern (toLowerCase latin1Table [0x4D, 0xDC, 0x20, 0x4B, 0x49, 0x41]) \<and>
   \<not> matchesCarPattern (toLowerCase latin1Table [0xDC, 0x42, 0x45, 0x52]) \<and>
   \<not> isCarDevice \<lparr>device_id = js ''01'', device_name = js ''Headset'',
                    device_isCarDevice = False, signalStrength = None, lastSeen = 0\<rparr>
        (snd (untagCarDevice (js ''01'') (Map.empty(js ''01'' \<mapsto>
           \<lparr>car_id = js ''01'', car_name = js ''Headset'', car_type = TagManual,
            lastConnected = None, createdAt = 0\<rparr>))))"
proof -
  let ?kia = "[0x4D, 0xDC, 0x20, 0x4B, 0x49, 0x41] :: jsstring"
  let ?uber = "[0xDC, 0x42, 0x45, 0x52] :: jsstring"
  have low: "toLowerCase latin1Table ?kia = [0x6D, 0xFC, 0x20, 0x6B, 0x69, 0x61]"
    by (simp add: toLowerCase_def lowerCodePoint_def latin1Table_def surrogatePair_def
                  asciiLower_def)
  have plain: "\<forall>c \<in> set ?kia. c \<noteq> 0x212A \<and> c \<noteq> 0x130"
              "\<forall>c \<in> set ?uber. c \<noteq> 0x212A \<and> c \<noteq> 0x130" by simp_all
  have m: "matchesCarPattern ?kia"
    by (simp add: matchesCarPattern_def patterns_def js_def canonicalize_def)
  have u: "\<not> matchesCarPattern ?uber"
    by (simp add: matchesCarPattern_def patterns_def js_def canonicalize_def)
  have n: "\<not> matchesCarPattern (js ''Headset'')"
    by (simp add: matchesCarPattern_def patterns_def js_def canonicalize_def)
  let ?d = "\<lparr>device_id = js ''01'', device_name = js ''Headset'',
                    device_isCarDevice = False, signalStrength = None, lastSeen = 0\<rparr>"
  let ?tags = "Map.empty(js ''01'' \<mapsto>
           \<lparr>car_id = js ''01'', car_name = js ''Headset'', car_type = TagManual,
            lastConnected = None, createdAt = 0\<rparr>)"
  from car_device_matching [of ?d 0 0 ?tags "js ''01''" latin1Table ?kia]
    nonAsciiTable_latin1 plain(1)
  have a: "matchesCarPattern (toLowerCase latin1Table ?kia) = matchesCarPattern ?kia"
    "isCarDevice ?d (snd (untagCarDevice (device_id ?d) ?tags)) =
       matchesCarPattern (device_name ?d)"
    by blast+
  from car_device_matching [of ?d 0 0 ?tags "js ''01''" latin1Table ?uber]
    nonAsciiTable_latin1 plain(2)
  have b: "matchesCarPattern (toLowerCase latin1Table ?uber) = matchesCarPattern ?uber"
    by blast
  from a b m u n low show ?thesis by simp
qed

text \<open>
  For the name K-i-a written with U+212A (KELVIN SIGN) the lowercased name is \<open>kia\<close>, which
  matches, while the name itself does not: the \<open>i\<close> flag does not fold U+212A to k. No
  entry of the table is read for this name.
\<close>

theorem lowercase_kelvin_counterexample:
  "\<not> matchesCarPattern [0x212A, 0x69, 0x61] \<and>
   toLowerCase latin1Table [0x212A, 0x69, 0x61] = js ''kia'' \<and>
   matchesCarPattern (toLowerCase latin1Table [0x212A, 0x69, 0x61])"
  by (simp add: matchesCarPattern_def patterns_def js_def canonicalize_def toLowerCase_def
                lowerCodePoint_def surrogatePair_def asciiLower_def)

text \<open>
  The lowercased form of these two names is the same for every table, and U+0130 has to be
  left out as well: A-U-D-U+0130 does not match, its lowercased form, which starts with
  \<open>audi\<close>, does.
\<close>

lemma lowercase_kelvin_any_table:
  "toLowerCase table [0x212A, 0x69, 0x61] = js ''kia''"
  by (simp add: js_def toLowerCase_def lowerCodePoint_def surrogatePair_def asciiLower_def)

lemma lowercase_dotted_I:
  "\<not> matchesCarPattern [0x41, 0x55, 0x44, 0x130] \<and>
   toLowerCase table [0x41, 0x55, 0x44, 0x130] = [0x61, 0x75, 0x64, 0x69, 0x307] \<and>
   matchesCarPattern (toLowerCase table [0x41, 0x55, 0x44, 0x130])"
  by (simp add: matchesCarPattern_def patterns_def js_def canonicalize_def toLowerCase_def
                lowerCodePoint_def surrogatePair_def asciiLower_def)

end
